theory Spec2Isabelle
  imports Complex_Main
begin

section \<open>Python strings and builtins used by the readers\<close>

text \<open>
  The readers are Python classes whose constructors read a text file and fill
  instance attributes. Text is modelled as \<open>string\<close> (ASCII text, one \<open>char\<close> per
  character), a raised exception as the \<open>Inl\<close> branch of a sum, and an instance as
  a record of the attributes that the modelled methods read or write.
\<close>

datatype py_error = IndexError | KeyError | ValueError | AttributeError | NameError | PyException

definition bnd :: "py_error + 'a \<Rightarrow> ('a \<Rightarrow> py_error + 'b) \<Rightarrow> py_error + 'b" where
  "bnd m f = (case m of Inl e \<Rightarrow> Inl e | Inr x \<Rightarrow> f x)"

text \<open>\<open>xs[i]\<close> for a non-negative literal or loop index: IndexError out of range.\<close>

definition idx :: "'a list \<Rightarrow> nat \<Rightarrow> py_error + 'a" where
  "idx xs i = (if i < length xs then Inr (xs ! i) else Inl IndexError)"

text \<open>\<open>xs[k:]\<close> for an integer \<open>k\<close>: a negative start counts from the end.\<close>

definition slice_from :: "int \<Rightarrow> 'a list \<Rightarrow> 'a list" where
  "slice_from k xs =
     (if 0 \<le> k then drop (nat k) xs else drop (length xs - nat (- k)) xs)"

text \<open>\<open>str.isspace\<close> on ASCII: tab to carriage return, the four separators, space.\<close>

definition py_isspace :: "char \<Rightarrow> bool" where
  "py_isspace c = (let n = (of_char c :: nat) in (9 \<le> n \<and> n \<le> 13) \<or> (28 \<le> n \<and> n \<le> 32))"

definition lstrip :: "string \<Rightarrow> string" where
  "lstrip s = dropWhile py_isspace s"

definition rstrip :: "string \<Rightarrow> string" where
  "rstrip s = rev (dropWhile py_isspace (rev s))"

definition strip :: "string \<Rightarrow> string" where
  "strip s = lstrip (rstrip s)"

text \<open>\<open>s.startswith(p)\<close>, and \<open>sub in s\<close> for strings.\<close>

fun startswith :: "string \<Rightarrow> string \<Rightarrow> bool" where
  "startswith [] s = True"
| "startswith (p # ps) [] = False"
| "startswith (p # ps) (c # cs) = (p = c \<and> startswith ps cs)"

fun contains :: "string \<Rightarrow> string \<Rightarrow> bool" where
  "contains sub [] = (sub = [])"
| "contains sub (c # cs) = (startswith sub (c # cs) \<or> contains sub cs)"

text \<open>
  \<open>s.split(sep)\<close> for a non-empty separator: the pieces between the
  non-overlapping occurrences of \<open>sep\<close>, found left to right. \<open>acc\<close> holds the
  current piece reversed, \<open>k\<close> the characters of a matched separator still to skip.
\<close>

fun split_aux :: "string \<Rightarrow> string \<Rightarrow> nat \<Rightarrow> string \<Rightarrow> string list" where
  "split_aux sep acc k [] = [rev acc]"
| "split_aux sep acc (Suc k) (c # cs) = split_aux sep acc k cs"
| "split_aux sep acc 0 (c # cs) =
     (if sep \<noteq> [] \<and> startswith sep (c # cs) then rev acc # split_aux sep [] (length sep - 1) cs
      else split_aux sep (c # acc) 0 cs)"

definition split :: "string \<Rightarrow> string \<Rightarrow> string list" where
  "split sep s = split_aux sep [] 0 s"

text \<open>\<open>s.split()\<close>: the maximal runs of non-whitespace characters.\<close>

fun split_ws_aux :: "string \<Rightarrow> string \<Rightarrow> string list" where
  "split_ws_aux acc [] = (if acc = [] then [] else [rev acc])"
| "split_ws_aux acc (c # cs) =
     (if py_isspace c then (if acc = [] then split_ws_aux [] cs else rev acc # split_ws_aux [] cs)
      else split_ws_aux (c # acc) cs)"

definition split_ws :: "string \<Rightarrow> string list" where
  "split_ws s = split_ws_aux [] s"

text \<open>\<open>sep.join(xs)\<close> and \<open>s.replace(old, new)\<close> (every occurrence, left to right).\<close>

fun join :: "string \<Rightarrow> string list \<Rightarrow> string" where
  "join sep [] = []"
| "join sep [x] = x"
| "join sep (x # y # ys) = x @ sep @ join sep (y # ys)"

definition replace :: "string \<Rightarrow> string \<Rightarrow> string \<Rightarrow> string" where
  "replace old new s = join new (split old s)"

text \<open>\<open>s.lower()\<close> on ASCII.\<close>

definition lower_char :: "char \<Rightarrow> char" where
  "lower_char c =
     (let n = (of_char c :: nat) in if 65 \<le> n \<and> n \<le> 90 then char_of (n + 32) else c)"

definition lower :: "string \<Rightarrow> string" where
  "lower s = map lower_char s"

text \<open>\<open>f.readlines()\<close>: the lines of the text, each with its newline.\<close>

fun readlines_aux :: "string \<Rightarrow> string \<Rightarrow> string list" where
  "readlines_aux acc [] = (if acc = [] then [] else [rev acc])"
| "readlines_aux acc (c # cs) =
     (if c = CHR ''\<newline>'' then rev (c # acc) # readlines_aux [] cs
      else readlines_aux (c # acc) cs)"

definition readlines :: "string \<Rightarrow> string list" where
  "readlines s = readlines_aux [] s"

subsection \<open>Numbers\<close>

definition is_digit :: "char \<Rightarrow> bool" where
  "is_digit c = (let n = (of_char c :: nat) in 48 \<le> n \<and> n \<le> 57)"

definition digit_val :: "char \<Rightarrow> nat" where
  "digit_val c = of_char c - 48"

definition digits_val :: "string \<Rightarrow> nat" where
  "digits_val s = foldl (\<lambda>a c. 10 * a + digit_val c) 0 s"

text \<open>
  Digits with single underscores between them, as Python's numeric literals in
  \<open>int(s)\<close> and \<open>float(s)\<close> allow; \<open>prev\<close> tells whether the previous character
  was a digit.
\<close>

fun digit_run :: "bool \<Rightarrow> string \<Rightarrow> bool" where
  "digit_run prev [] = prev"
| "digit_run prev (c # cs) =
     (if is_digit c then digit_run True cs
      else if c = CHR ''_'' \<and> prev then digit_run False cs
      else False)"

definition unsign :: "string \<Rightarrow> bool \<times> string" where
  "unsign s = (case s of [] \<Rightarrow> (False, [])
     | c # cs \<Rightarrow> if c = CHR ''-'' then (True, cs) else if c = CHR ''+'' then (False, cs) else (False, s))"

text \<open>\<open>int(s)\<close> of a string: surrounding whitespace, a sign, decimal digits.\<close>

definition py_int :: "string \<Rightarrow> py_error + int" where
  "py_int s =
     (let (neg, body) = unsign (strip s) in
      if digit_run False body
      then (let n = int (digits_val (filter is_digit body)) in Inr (if neg then - n else n))
      else Inl ValueError)"

text \<open>
  \<open>float(s)\<close> is a parameter \<open>flt\<close> of the models below, \<open>None\<close> standing for
  ValueError, so that the general theorems hold for Python's own conversion.
  \<open>float_dec\<close> is the instance used on concrete inputs: it reads plain decimal
  literals (whitespace, sign, digits, at most one point) and returns their exact
  value; it rejects everything else, in particular text that is no number.
\<close>

definition float_dec :: "string \<Rightarrow> real option" where
  "float_dec s =
     (let (neg, body) = unsign (strip s);
          ip = takeWhile (\<lambda>c. c \<noteq> CHR ''.'') body;
          rest = dropWhile (\<lambda>c. c \<noteq> CHR ''.'') body;
          fp = (case rest of [] \<Rightarrow> [] | _ # r \<Rightarrow> r)
      in if ip @ fp \<noteq> [] \<and> list_all is_digit ip \<and> list_all is_digit fp
         then (let v = real (digits_val (ip @ fp)) / 10 ^ length fp
               in Some (if neg then - v else v))
         else None)"

definition py_float :: "(string \<Rightarrow> 'f option) \<Rightarrow> string \<Rightarrow> py_error + 'f" where
  "py_float flt s = (case flt s of None \<Rightarrow> Inl ValueError | Some v \<Rightarrow> Inr v)"

section \<open>The modal shape file reader (common\_mds\_reader.py)\<close>

record 'f mode =
  nat_freq :: 'f
  segments :: "'f list"
  mode_shape :: "'f list"
  mode_slope :: "'f list"
  mode_curvature :: "'f list"

record 'f common_mds =
  no_of_modes :: int
  no_of_nodes :: int
  modes :: "int \<rightharpoonup> 'f mode"

text \<open>Block 2 of \<open>read_mds_file\<close>: one line per mode, \<open>i\<close> in \<open>range(1, 1 + no_of_modes)\<close>.\<close>

fun mds_block2 ::
  "(string \<Rightarrow> 'f option) \<Rightarrow> string list \<Rightarrow> nat list \<Rightarrow> (int \<rightharpoonup> 'f mode) \<Rightarrow> py_error + (int \<rightharpoonup> 'f mode)" where
  "mds_block2 flt data [] ms = Inr ms"
| "mds_block2 flt data (i # is) ms =
     bnd (idx data i) (\<lambda>l. let line = split_ws (rstrip l) in
     bnd (idx line 0) (\<lambda>a. bnd (py_int a) (\<lambda>m.
     bnd (idx line 1) (\<lambda>b. bnd (py_float flt b) (\<lambda>f.
       mds_block2 flt data is
         (ms(m \<mapsto> \<lparr>nat_freq = f, segments = [], mode_shape = [], mode_slope = [],
                   mode_curvature = []\<rparr>)))))))"

text \<open>Block 3: every remaining line appends to the two lists of the mode it names.\<close>

fun mds_block3 ::
  "(string \<Rightarrow> 'f option) \<Rightarrow> string list \<Rightarrow> (int \<rightharpoonup> 'f mode) \<Rightarrow> py_error + (int \<rightharpoonup> 'f mode)" where
  "mds_block3 flt [] ms = Inr ms"
| "mds_block3 flt (l # ls) ms =
     (let line = split_ws (rstrip l) in
      bnd (idx line 0) (\<lambda>a. bnd (py_int a) (\<lambda>m.
      (case ms m of None \<Rightarrow> Inl KeyError | Some md \<Rightarrow>
      bnd (idx line 1) (\<lambda>b. bnd (py_float flt b) (\<lambda>sg.
      let md1 = md\<lparr>segments := segments md @ [sg]\<rparr> in
      bnd (idx line 2) (\<lambda>c. bnd (py_float flt c) (\<lambda>sh.
        mds_block3 flt ls (ms(m \<mapsto> md1\<lparr>mode_shape := mode_shape md1 @ [sh]\<rparr>))))))))))"

definition read_mds_file :: "(string \<Rightarrow> 'f option) \<Rightarrow> string \<Rightarrow> py_error + 'f common_mds" where
  "read_mds_file flt contents =
     (let data = readlines contents in
      bnd (idx data 0) (\<lambda>l0. let line = split_ws (rstrip l0) in
      bnd (idx line 0) (\<lambda>a. bnd (py_int a) (\<lambda>nm.
      bnd (idx line 1) (\<lambda>b. bnd (py_int b) (\<lambda>nn.
      bnd (mds_block2 flt data [1 ..< nat (1 + nm)] Map.empty) (\<lambda>ms2.
      bnd (mds_block3 flt (slice_from (1 + nm) data) ms2) (\<lambda>ms3.
        Inr \<lparr>no_of_modes = nm, no_of_nodes = nn, modes = ms3\<rparr>))))))))"

section \<open>The das file reader (das\_file\_reader.py)\<close>

type_synonym sections = "string \<rightharpoonup> string list"

text \<open>The attributes of a \<open>DasFile\<close> that the modelled methods read or write.\<close>

record 'f das_file =
  das_file_path :: string
  das_data :: "string \<rightharpoonup> sections"
  models :: "nat \<rightharpoonup> sections"
  no_models :: nat
  load_cases :: "nat \<rightharpoonup> sections"
  no_load_cases :: nat
  units :: "string option"
  length_unit :: "string option"
  analysis_type :: "string option"
  water_depth :: "'f option"
  errors :: "string list"

text \<open>
  The object once \<open>__init__\<close> has stored the path of the file and
  \<open>setup_variables\<close> has set the placeholders.
\<close>

definition setup_variables :: "string \<Rightarrow> 'f das_file" where
  "setup_variables path =
     \<lparr>das_file_path = path, das_data = [''headers'' \<mapsto> [''headers'' \<mapsto> []]], models = Map.empty, no_models = 0,
      load_cases = Map.empty, no_load_cases = 0, units = None, length_unit = None,
      analysis_type = None, water_depth = None, errors = []\<rparr>"

text \<open>
  \<open>read_das_file\<close>: the lines of the file, right-stripped; empty lines and
  lines whose first character is c or C are dropped, the others are stripped.
\<close>

fun das_lines :: "string list \<Rightarrow> string list" where
  "das_lines [] = []"
| "das_lines (l # ls) =
     (let line = rstrip l in
      if 0 < length line \<and> lower_char (hd line) \<noteq> CHR ''c''
      then rstrip (strip line) # das_lines ls
      else das_lines ls)"

definition read_das_file :: "string \<Rightarrow> string list" where
  "read_das_file contents = das_lines (readlines contents)"

text \<open>
  One iteration of the loop of \<open>parse_das_file_data\<close>. The loop variables are
  the current dollar section and the current star section; a missing dictionary
  key is the KeyError that Python raises.
\<close>

fun parse_line ::
  "string \<times> string \<times> 'f das_file \<Rightarrow> string \<Rightarrow> py_error + (string \<times> string \<times> 'f das_file)" where
  "parse_line (dollar_section, star_section, st) line =
     (case line of
        [] \<Rightarrow> Inl IndexError
      | c # _ \<Rightarrow>
          if c = CHR ''$'' then
            (let st1 = (if line = ''$MODEL''
                        then st\<lparr>no_models := no_models st + 1,
                               models := (models st)(no_models st + 1 \<mapsto> Map.empty)\<rparr>
                        else st);
                 st2 = (if line = ''$LOAD CASE''
                        then st1\<lparr>no_load_cases := no_load_cases st1 + 1,
                                load_cases := (load_cases st1)(no_load_cases st1 + 1 \<mapsto> Map.empty)\<rparr>
                        else st1\<lparr>das_data := (das_data st1)(line \<mapsto> Map.empty)\<rparr>)
             in Inr (line, star_section, st2))
          else if c = CHR ''*'' then
            (if dollar_section = ''$MODEL'' then
               (case models st (no_models st) of
                  None \<Rightarrow> Inl KeyError
                | Some m \<Rightarrow> Inr (dollar_section, line,
                    st\<lparr>models := (models st)(no_models st \<mapsto> m(line \<mapsto> []))\<rparr>))
             else if dollar_section = ''$LOAD CASE'' then
               (case load_cases st (no_load_cases st) of
                  None \<Rightarrow> Inl KeyError
                | Some m \<Rightarrow> Inr (dollar_section, line,
                    st\<lparr>load_cases := (load_cases st)(no_load_cases st \<mapsto> m(line \<mapsto> []))\<rparr>))
             else
               (case das_data st dollar_section of
                  None \<Rightarrow> Inl KeyError
                | Some m \<Rightarrow> Inr (dollar_section, line,
                    st\<lparr>das_data := (das_data st)(dollar_section \<mapsto> m(line \<mapsto> []))\<rparr>)))
          else
            (if dollar_section = ''$MODEL'' then
               (case models st (no_models st) of
                  None \<Rightarrow> Inl KeyError
                | Some m \<Rightarrow>
                    (case m star_section of
                       None \<Rightarrow> Inl KeyError
                     | Some xs \<Rightarrow> Inr (dollar_section, star_section,
                         st\<lparr>models := (models st)(no_models st \<mapsto> m(star_section \<mapsto> xs @ [line]))\<rparr>)))
             else if dollar_section = ''$LOAD CASE'' then
               (case load_cases st (no_load_cases st) of
                  None \<Rightarrow> Inl KeyError
                | Some m \<Rightarrow>
                    (case m star_section of
                       None \<Rightarrow> Inl KeyError
                     | Some xs \<Rightarrow> Inr (dollar_section, star_section,
                         st\<lparr>load_cases :=
                              (load_cases st)(no_load_cases st \<mapsto> m(star_section \<mapsto> xs @ [line]))\<rparr>)))
             else
               (case das_data st dollar_section of
                  None \<Rightarrow> Inl KeyError
                | Some m \<Rightarrow>
                    (case m star_section of
                       None \<Rightarrow> Inl KeyError
                     | Some xs \<Rightarrow> Inr (dollar_section, star_section,
                         st\<lparr>das_data :=
                              (das_data st)(dollar_section \<mapsto> m(star_section \<mapsto> xs @ [line]))\<rparr>)))))"

fun parse_lines ::
  "string \<times> string \<times> 'f das_file \<Rightarrow> string list \<Rightarrow> py_error + (string \<times> string \<times> 'f das_file)" where
  "parse_lines s [] = Inr s"
| "parse_lines s (l # ls) = bnd (parse_line s l) (\<lambda>s'. parse_lines s' ls)"

definition parse_das_file_data :: "'f das_file \<Rightarrow> string list \<Rightarrow> py_error + 'f das_file" where
  "parse_das_file_data st data =
     bnd (parse_lines (''headers'', ''headers'', st) data) (\<lambda>s. Inr (snd (snd s)))"

text \<open>
  \<open>for d in lines: if key in d: v = d.split('=')[1].strip()\<close>, the scan shared
  by \<open>get_units\<close> and \<open>get_analysis_type\<close>: the last matching line wins.
\<close>

fun scan_equals :: "string \<Rightarrow> string option \<Rightarrow> string list \<Rightarrow> py_error + string option" where
  "scan_equals key v [] = Inr v"
| "scan_equals key v (d # ds) =
     (if contains key d
      then bnd (idx (split ''='' d) 1) (\<lambda>x. scan_equals key (Some (strip x)) ds)
      else scan_equals key v ds)"

definition units_dict :: "string \<rightharpoonup> string" where
  "units_dict = [''imperial'' \<mapsto> ''ft'', ''metric'' \<mapsto> ''m'']"

definition get_units :: "'f das_file \<Rightarrow> py_error + 'f das_file" where
  "get_units st =
     bnd (case das_data st ''$ANALYSIS'' of
            None \<Rightarrow> Inr (units st)
          | Some a \<Rightarrow> (case a ''*UNITS'' of
                None \<Rightarrow> Inr (units st)
              | Some ds \<Rightarrow> scan_equals ''UNITS='' (units st) ds))
       (\<lambda>u. let st1 = st\<lparr>units := u\<rparr> in
          case u of
            None \<Rightarrow> Inr (st1\<lparr>errors := errors st1 @ [''Units not found'']\<rparr>)
          | Some us \<Rightarrow>
              if us = [] then Inr (st1\<lparr>errors := errors st1 @ [''Units not found'']\<rparr>)
              else (case units_dict (lower us) of
                      None \<Rightarrow> Inl KeyError
                    | Some lu \<Rightarrow> Inr (st1\<lparr>length_unit := Some lu\<rparr>)))"

definition get_analysis_type :: "'f das_file \<Rightarrow> py_error + 'f das_file" where
  "get_analysis_type st =
     (case das_data st ''$ANALYSIS'' of
        None \<Rightarrow> Inl KeyError
      | Some a \<Rightarrow> (case a ''*ANALYSIS TYPE'' of
            None \<Rightarrow> Inr st
          | Some ds \<Rightarrow> bnd (scan_equals ''TYPE='' (analysis_type st) ds)
                         (\<lambda>t. Inr (st\<lparr>analysis_type := t\<rparr>))))"

text \<open>\<open>process_water_depth\<close> with its default \<open>model=1\<close>; the constructor stores the result.\<close>

definition process_water_depth :: "(string \<Rightarrow> 'f option) \<Rightarrow> 'f das_file \<Rightarrow> py_error + 'f option" where
  "process_water_depth flt st =
     (case models st 1 of
        None \<Rightarrow> Inl KeyError
      | Some m \<Rightarrow> (case m ''*OCEAN'' of
            None \<Rightarrow> Inr None
          | Some ls \<Rightarrow> bnd (idx ls 0) (\<lambda>l. bnd (idx (split '','' l) 0) (\<lambda>t.
                         bnd (py_float flt t) (\<lambda>v. Inr (Some v))))))"

text \<open>
  The constructor up to the water depth: \<open>setup_variables\<close>, \<open>read_das_file\<close>,
  \<open>parse_das_file_data\<close>, \<open>get_units\<close>, \<open>get_analysis_type\<close>,
  \<open>process_water_depth\<close>, in the order of \<open>__init__\<close>. An exception of any step
  leaves the constructor, so no object is returned.
\<close>

definition das_init ::
  "(string \<Rightarrow> 'f option) \<Rightarrow> string \<Rightarrow> string \<Rightarrow> py_error + 'f das_file" where
  "das_init flt path contents =
     bnd (parse_das_file_data (setup_variables path) (read_das_file contents)) (\<lambda>st1.
     bnd (get_units st1) (\<lambda>st2.
     bnd (get_analysis_type st2) (\<lambda>st3.
     bnd (process_water_depth flt st3) (\<lambda>wd. Inr (st3\<lparr>water_depth := wd\<rparr>)))))"

subsection \<open>The reading of the specification: one instance per marker\<close>

text \<open>
  The lines that follow the \<open>k\<close>-th line equal to \<open>marker\<close> (counting from 1), up
  to the next line that starts a dollar section.
\<close>

definition is_dollar :: "string \<Rightarrow> bool" where
  "is_dollar l = (case l of [] \<Rightarrow> False | c # _ \<Rightarrow> c = CHR ''$'')"

definition is_star :: "string \<Rightarrow> bool" where
  "is_star l = (case l of [] \<Rightarrow> False | c # _ \<Rightarrow> c = CHR ''*'')"

fun lines_after :: "string \<Rightarrow> nat \<Rightarrow> string list \<Rightarrow> string list" where
  "lines_after marker k [] = []"
| "lines_after marker k (l # ls) =
     (if l = marker
      then (if k \<le> 1 then takeWhile (\<lambda>x. \<not> is_dollar x) ls else lines_after marker (k - 1) ls)
      else lines_after marker k ls)"

text \<open>
  The sub-sections of one instance, built from its own lines alone: a star line
  opens (or re-initialises) the section of its name, any other line is appended
  to the section opened last. \<open>None\<close> when a data line has no open section to go
  to; \<open>cur\<close> is the name of the section opened last.
\<close>

fun sub_sections :: "string \<Rightarrow> sections \<Rightarrow> string list \<Rightarrow> sections option" where
  "sub_sections cur m [] = Some m"
| "sub_sections cur m (l # ls) =
     (if is_star l then sub_sections l (m(l \<mapsto> [])) ls
      else (case m cur of None \<Rightarrow> None | Some xs \<Rightarrow> sub_sections cur (m(cur \<mapsto> xs @ [l])) ls))"

definition instance_of :: "string \<Rightarrow> nat \<Rightarrow> string list \<Rightarrow> sections option" where
  "instance_of marker k data = sub_sections [] Map.empty (lines_after marker k data)"

subsection \<open>What the loop leaves in the occurrence-numbered dictionaries\<close>

text \<open>
  The relation between the state \<open>st\<close> before the remaining lines \<open>ls\<close>, with
  loop variables \<open>d\<close> and \<open>s\<close>, and the state \<open>st'\<close> after them: the counter
  grows by the number of markers, older instances are frozen, each new instance
  is built from its own lines, and the instance that is open at the start
  receives the lines up to the next dollar line.
\<close>

definition models_post ::
  "string \<Rightarrow> string \<Rightarrow> 'f das_file \<Rightarrow> string list \<Rightarrow> 'f das_file \<Rightarrow> bool" where
  "models_post d s st ls st' =
     (no_models st' = no_models st + length (filter (\<lambda>l. l = ''$MODEL'') ls) \<and>
      (\<forall>k. k < no_models st \<longrightarrow> models st' k = models st k) \<and>
      (\<forall>k. no_models st' < k \<longrightarrow> models st' k = models st k) \<and>
      (\<forall>k. no_models st < k \<and> k \<le> no_models st' \<longrightarrow>
           models st' k = instance_of ''$MODEL'' (k - no_models st) ls) \<and>
      (d \<noteq> ''$MODEL'' \<longrightarrow> models st' (no_models st) = models st (no_models st)) \<and>
      (\<forall>m. d = ''$MODEL'' \<and> models st (no_models st) = Some m \<longrightarrow>
           models st' (no_models st) = sub_sections s m (takeWhile (\<lambda>x. \<not> is_dollar x) ls)))"

definition load_cases_post ::
  "string \<Rightarrow> string \<Rightarrow> 'f das_file \<Rightarrow> string list \<Rightarrow> 'f das_file \<Rightarrow> bool" where
  "load_cases_post d s st ls st' =
     (no_load_cases st' = no_load_cases st + length (filter (\<lambda>l. l = ''$LOAD CASE'') ls) \<and>
      (\<forall>k. k < no_load_cases st \<longrightarrow> load_cases st' k = load_cases st k) \<and>
      (\<forall>k. no_load_cases st' < k \<longrightarrow> load_cases st' k = load_cases st k) \<and>
      (\<forall>k. no_load_cases st < k \<and> k \<le> no_load_cases st' \<longrightarrow>
           load_cases st' k = instance_of ''$LOAD CASE'' (k - no_load_cases st) ls) \<and>
      (d \<noteq> ''$LOAD CASE'' \<longrightarrow> load_cases st' (no_load_cases st) = load_cases st (no_load_cases st)) \<and>
      (\<forall>m. d = ''$LOAD CASE'' \<and> load_cases st (no_load_cases st) = Some m \<longrightarrow>
           load_cases st' (no_load_cases st) = sub_sections s m (takeWhile (\<lambda>x. \<not> is_dollar x) ls)))"

subsection \<open>Element sets and hydrodynamic sets\<close>

text \<open>
  One line of \<open>*ELEMENT SETS\<close> in \<open>process_element_sets\<close>. The loop variable
  \<open>set\<close> of the source is \<open>cur\<close> here; it starts as the empty string.
\<close>

fun py_ints :: "string list \<Rightarrow> py_error + int list" where
  "py_ints [] = Inr []"
| "py_ints (t # ts) = bnd (py_int t) (\<lambda>i. bnd (py_ints ts) (\<lambda>is. Inr (i # is)))"

definition row_elements :: "string \<Rightarrow> py_error + int list" where
  "row_elements e =
     (if contains ''GEN='' e then
        (let gen = split '','' (replace ''GEN='' [] e) in
         bnd (idx gen 0) (\<lambda>a. bnd (py_int a) (\<lambda>lo.
         bnd (idx gen 1) (\<lambda>b. bnd (py_int b) (\<lambda>hi. Inr [lo .. hi])))))
      else py_ints (split '','' e))"

definition element_set_line ::
  "string \<times> (string \<rightharpoonup> int list) \<Rightarrow> string \<Rightarrow> py_error + (string \<times> (string \<rightharpoonup> int list))" where
  "element_set_line st e =
     (let cur = fst st; element_sets = snd st in
      if take 4 e = ''SET='' then
        (let cur' = strip (drop 4 e) in Inr (cur', element_sets(cur' \<mapsto> [])))
      else if cur \<noteq> [] then
        bnd (row_elements e) (\<lambda>is.
          case element_sets cur of
            None \<Rightarrow> Inl KeyError
          | Some xs \<Rightarrow> Inr (cur, element_sets(cur \<mapsto> xs @ is)))
      else Inr st)"

fun element_set_lines ::
  "string \<times> (string \<rightharpoonup> int list) \<Rightarrow> string list \<Rightarrow> py_error + (string \<times> (string \<rightharpoonup> int list))" where
  "element_set_lines st [] = Inr st"
| "element_set_lines st (e # es) = bnd (element_set_line st e) (\<lambda>st'. element_set_lines st' es)"

text \<open>\<open>process_element_sets(model)\<close>: the method returns None when the model has no such section.\<close>

definition process_element_sets ::
  "'f das_file \<Rightarrow> nat \<Rightarrow> py_error + (string \<rightharpoonup> int list) option" where
  "process_element_sets st model =
     (case models st model of
        None \<Rightarrow> Inl KeyError
      | Some m \<Rightarrow> (case m ''*ELEMENT SETS'' of
            None \<Rightarrow> Inr None
          | Some ds \<Rightarrow> bnd (element_set_lines ([], Map.empty) ds) (\<lambda>r. Inr (Some (snd r)))))"











section \<open>The number conversion of the dpx reader (dpx\_reader.py)\<close>

text \<open>What \<open>convert_to_number\<close> can return: None, NaN, a float, or the string it was given.\<close>

datatype 'f py_value = PyNone | PyNaN | PyFloat 'f | PyStr string

definition convert_to_number ::
  "(string \<Rightarrow> 'f option) \<Rightarrow> string \<Rightarrow> bool \<Rightarrow> bool \<Rightarrow> py_error + 'f py_value" where
  "convert_to_number flt s return_none return_np_nan =
     (if return_none \<and> return_np_nan then Inl PyException
      else (case flt s of
              Some v \<Rightarrow> Inr (PyFloat v)
            | None \<Rightarrow>
                if return_none then Inr PyNone
                else if return_np_nan then Inr PyNaN
                else Inr (PyStr s)))"

section \<open>The tab file reader (tab\_file\_reader.py)\<close>

text \<open>One series of a table: the dictionary with the keys X, Y, X Label, Y Label, X Units, Y Units.\<close>

record 'f series_data =
  series_X :: "'f list"
  series_Y :: "'f list"
  X_Label :: string
  Y_Label :: string
  X_Units :: string
  Y_Units :: string

type_synonym 'f tab_data = "string \<rightharpoonup> (string \<rightharpoonup> 'f series_data)"

text \<open>
  The attribute \<open>tab_file_data\<close> and the local variables of \<open>parse_contents\<close>.
  \<open>series\<close> is unbound (None) before the first Plot Data line; the labels, the
  units and the counter are bound by the first table line, before any use.
\<close>

record 'f tab_state =
  tab_file_data :: "'f tab_data"
  table :: "string option"
  series :: "string option"
  series_count :: nat
  x_axis_label :: string
  y_axis_label :: string
  x_units :: string
  y_units :: string

definition tab_start :: "unit \<Rightarrow> 'f tab_state" where
  "tab_start u =
     \<lparr>tab_file_data = Map.empty, table = None, series = None, series_count = 0,
      x_axis_label = [], y_axis_label = [], x_units = [], y_units = []\<rparr>"

text \<open>\<open>str(n)\<close> of a natural number, as the f-string \<open>f'Series {series_count}'\<close> needs it.\<close>

fun str_nat :: "nat \<Rightarrow> string" where
  "str_nat n =
     (if n < 10 then [char_of (48 + n)] else str_nat (n div 10) @ [char_of (48 + n mod 10)])"

text \<open>\<open>line.split(':')[1].strip()\<close>.\<close>

definition colon_field :: "string \<Rightarrow> py_error + string" where
  "colon_field line = bnd (idx (split '':'' line) 1) (\<lambda>x. Inr (strip x))"

text \<open>
  The \<open>try\<close> block that ends each iteration: a row of two tab-separated numbers
  is appended to the current series. Any exception inside it is swallowed by
  \<open>except: pass\<close>, but an X value appended before the exception stays.
\<close>

definition try_append :: "(string \<Rightarrow> 'f option) \<Rightarrow> 'f tab_state \<Rightarrow> string \<Rightarrow> 'f tab_state" where
  "try_append flt st line =
     (let parts = split [CHR 0x09] line in
      (case table st of None \<Rightarrow> st | Some t \<Rightarrow>
      (case series st of None \<Rightarrow> st | Some sr \<Rightarrow>
      (case tab_file_data st t of None \<Rightarrow> st | Some tb \<Rightarrow>
      (case tb sr of None \<Rightarrow> st | Some e \<Rightarrow>
      (case idx parts 0 of Inl err \<Rightarrow> st | Inr p0 \<Rightarrow>
      (case flt p0 of None \<Rightarrow> st | Some x \<Rightarrow>
        (let e1 = e\<lparr>series_X := series_X e @ [x]\<rparr>;
             st1 = st\<lparr>tab_file_data := (tab_file_data st)(t \<mapsto> tb(sr \<mapsto> e1))\<rparr> in
         (case idx parts 1 of Inl err \<Rightarrow> st1 | Inr p1 \<Rightarrow>
         (case flt p1 of None \<Rightarrow> st1 | Some y \<Rightarrow>
           st\<lparr>tab_file_data :=
                (tab_file_data st)(t \<mapsto> tb(sr \<mapsto> e1\<lparr>series_Y := series_Y e1 @ [y]\<rparr>))\<rparr>))))))))))"

text \<open>The five tests on the start of a line, in the order of the source.\<close>

definition axis_lines :: "'f tab_state \<Rightarrow> string \<Rightarrow> py_error + 'f tab_state" where
  "axis_lines st line =
     bnd (if take 7 line = ''X-Axis:''
          then bnd (colon_field line) (\<lambda>v. Inr (st\<lparr>x_axis_label := v\<rparr>)) else Inr st) (\<lambda>st1.
     bnd (if take 7 line = ''Y-Axis:''
          then bnd (colon_field line) (\<lambda>v. Inr (st1\<lparr>y_axis_label := v\<rparr>)) else Inr st1) (\<lambda>st2.
     bnd (if take 8 line = ''X-Units:''
          then bnd (colon_field line) (\<lambda>v. Inr (
                 if v \<noteq> [] then st2\<lparr>x_units := v, x_axis_label := x_axis_label st2 @ '' ('' @ v @ '')''\<rparr>
                 else st2\<lparr>x_units := v\<rparr>))
          else Inr st2) (\<lambda>st3.
     (if take 8 line = ''Y-Units:''
      then bnd (colon_field line) (\<lambda>v. Inr (
             if v \<noteq> [] then st3\<lparr>y_units := v, y_axis_label := y_axis_label st3 @ '' ('' @ v @ '')''\<rparr>
             else st3\<lparr>y_units := v\<rparr>))
      else Inr st3))))"

definition plot_data_line :: "'f tab_state \<Rightarrow> string \<Rightarrow> string \<Rightarrow> py_error + 'f tab_state" where
  "plot_data_line st t line =
     (if take 10 line = ''Plot Data:'' then
        bnd (colon_field line) (\<lambda>title.
          case tab_file_data st t of
            None \<Rightarrow> Inl KeyError
          | Some tb \<Rightarrow>
              (let dup = (title = [] \<or> tb title \<noteq> None);
                   n = (if dup then series_count st + 1 else series_count st);
                   name = (if dup then ''Series '' @ str_nat n else title)
               in Inr (st\<lparr>series_count := n, series := Some name,
                         tab_file_data := (tab_file_data st)(t \<mapsto> tb(name \<mapsto>
                           \<lparr>series_X = [], series_Y = [], X_Label = x_axis_label st,
                            Y_Label = y_axis_label st, X_Units = x_units st,
                            Y_Units = y_units st\<rparr>))\<rparr>)))
      else Inr st)"

text \<open>One iteration of the loop of \<open>parse_contents\<close>.\<close>

definition tab_line :: "(string \<Rightarrow> 'f option) \<Rightarrow> 'f tab_state \<Rightarrow> string \<Rightarrow> py_error + 'f tab_state" where
  "tab_line flt st line =
     (if contains ''Table No.'' line then
        (let t = replace [CHR ''\<newline>''] [] line in
         Inr (st\<lparr>table := Some t, tab_file_data := (tab_file_data st)(t \<mapsto> Map.empty),
                 series_count := 0, x_axis_label := [], y_axis_label := [],
                 x_units := [], y_units := []\<rparr>))
      else (case table st of
              None \<Rightarrow> Inr st
            | Some t \<Rightarrow>
                if t = [] then Inr st
                else bnd (axis_lines st line) (\<lambda>st1.
                     bnd (plot_data_line st1 t line) (\<lambda>st2.
                       Inr (try_append flt st2 line)))))"

fun parse_contents ::
  "(string \<Rightarrow> 'f option) \<Rightarrow> 'f tab_state \<Rightarrow> string list \<Rightarrow> py_error + 'f tab_state" where
  "parse_contents flt st [] = Inr st"
| "parse_contents flt st (l # ls) = bnd (tab_line flt st l) (\<lambda>st'. parse_contents flt st' ls)"

text \<open>
  \<open>offset_elevations(table, offset, axis)\<close> for the two axes that hold numbers.
  The method returns nothing and assigns into the lists of \<open>self.tab_file_data\<close>;
  the model returns that attribute as the call leaves it.
\<close>

datatype axis = AxisX | AxisY

definition offset_series :: "axis \<Rightarrow> 'f::plus \<Rightarrow> 'f series_data \<Rightarrow> 'f series_data" where
  "offset_series ax offset e =
     (case ax of
        AxisX \<Rightarrow> e\<lparr>series_X := map (\<lambda>val. val + offset) (series_X e)\<rparr>
      | AxisY \<Rightarrow> e\<lparr>series_Y := map (\<lambda>val. val + offset) (series_Y e)\<rparr>)"

definition offset_elevations ::
  "('f::plus) tab_data \<Rightarrow> string \<Rightarrow> 'f \<Rightarrow> axis \<Rightarrow> py_error + 'f tab_data" where
  "offset_elevations td t offset ax =
     (case td t of
        None \<Rightarrow> Inl KeyError
      | Some tb \<Rightarrow> Inr (td(t \<mapsto> (\<lambda>sr. map_option (offset_series ax offset) (tb sr)))))"

text \<open>
  The loop is inside the table named \<open>t\<close>, with the counter at \<open>n\<close> and the series
  keys \<open>ks\<close> in that table.
\<close>

definition in_table :: "string \<Rightarrow> nat \<Rightarrow> string set \<Rightarrow> 'f tab_state \<Rightarrow> bool" where
  "in_table t n ks st =
     (table st = Some t \<and> series_count st = n \<and>
      (\<exists>tb. tab_file_data st t = Some tb \<and> dom tb = ks))"

section \<open>The solver output reader (output\_file\_reader.py)\<close>

record out_file =
  converged :: "bool option"
  restart :: "bool option"
  out_data :: "string \<rightharpoonup> string list"

text \<open>The attributes that \<open>read_out_file\<close> uses, as \<open>setup_variables\<close> leaves them.\<close>

definition out_start :: out_file where
  "out_start = \<lparr>converged = None, restart = None, out_data = [''headers'' \<mapsto> []]\<rparr>"

definition is_success :: "string \<Rightarrow> string \<Rightarrow> bool" where
  "is_success solver line = contains (''successful '' @ solver @ '' analysis'') (lower line)"

definition is_failure :: "string \<Rightarrow> bool" where
  "is_failure line =
     (contains ''Error: Solution has failed to converge.'' line \<or>
      contains ''Error: The restart file for this analysis does not exist.'' line \<or>
      contains ''No database files exist for opening.'' line \<or>
      contains ''dongle'' line)"

text \<open>The five tests on a line, each an assignment to \<open>self.converged\<close>.\<close>

definition sentinels :: "string \<Rightarrow> out_file \<Rightarrow> string \<Rightarrow> out_file" where
  "sentinels solver st line =
     (let st1 = (if contains (''successful '' @ solver @ '' analysis'') (lower line)
                 then st\<lparr>converged := Some True\<rparr> else st);
          st2 = (if contains ''Error: Solution has failed to converge.'' line
                 then st1\<lparr>converged := Some False\<rparr> else st1);
          st3 = (if contains ''Error: The restart file for this analysis does not exist.'' line
                 then st2\<lparr>restart := Some False, converged := Some False\<rparr> else st2);
          st4 = (if contains ''No database files exist for opening.'' line
                 then st3\<lparr>converged := Some False\<rparr> else st3)
      in if contains ''dongle'' line then st4\<lparr>converged := Some False\<rparr> else st4)"

text \<open>One iteration of the loop of \<open>read_out_file\<close>; \<open>key\<close> is the current header.\<close>

definition out_line ::
  "string \<Rightarrow> string \<times> out_file \<Rightarrow> string \<Rightarrow> py_error + (string \<times> out_file)" where
  "out_line solver ks raw =
     (let key = fst ks; st = sentinels solver (snd ks) raw;
          line = replace [CHR ''\<newline>''] [] raw
      in if 0 < length line then
           (if contains '' *** '' line \<and> \<not> contains ''Articulation Element'' line then
              (let key' = strip (replace ''***'' [] line)
               in Inr (key', st\<lparr>out_data := (out_data st)(key' \<mapsto> [])\<rparr>))
            else if 0 < length (strip line) then
              (case out_data st key of
                 None \<Rightarrow> Inl KeyError
               | Some xs \<Rightarrow> Inr (key, st\<lparr>out_data := (out_data st)(key \<mapsto> xs @ [line])\<rparr>))
            else Inr (key, st))
         else Inr (key, st))"

fun out_lines ::
  "string \<Rightarrow> string \<times> out_file \<Rightarrow> string list \<Rightarrow> py_error + (string \<times> out_file)" where
  "out_lines solver ks [] = Inr ks"
| "out_lines solver ks (l # ls) = bnd (out_line solver ks l) (\<lambda>ks'. out_lines solver ks' ls)"

definition read_out_file :: "string \<Rightarrow> string list \<Rightarrow> py_error + out_file" where
  "read_out_file solver file_lines =
     bnd (out_lines solver (''headers'', out_start) file_lines) (\<lambda>ks. Inr (snd ks))"

section \<open>The shear7 input file reader (shear7\_file\_reader.py)\<close>

text \<open>
  The attributes that \<open>parse_file\<close> and \<open>process_block3\<close> write. The text and the
  maximum, minimum and mean that \<open>process_block3\<close> derives from the profile are
  left out.
\<close>

record 'f shear7_file =
  s7_data :: "string \<rightharpoonup> string list"
  number_current_points :: "int option"
  current_profile :: "('f \<times> 'f) list"

definition s7_start :: "unit \<Rightarrow> 'f shear7_file" where
  "s7_start u = \<lparr>s7_data = [''headers'' \<mapsto> []], number_current_points = None, current_profile = []\<rparr>"

text \<open>\<open>line.split(".")[0].split("***")[1].strip()\<close>.\<close>

definition section_name :: "string \<Rightarrow> py_error + string" where
  "section_name line =
     bnd (idx (split ''.'' line) 0) (\<lambda>a. bnd (idx (split ''***'' a) 1) (\<lambda>b. Inr (strip b)))"

text \<open>One iteration of the loop of \<open>parse_file\<close>; \<open>section\<close> is the loop variable.\<close>

definition s7_line ::
  "string \<times> (string \<rightharpoonup> string list) \<Rightarrow> string \<Rightarrow> py_error + (string \<times> (string \<rightharpoonup> string list))" where
  "s7_line sd line =
     (let section = fst sd; d = snd sd in
      if contains ''***'' line
      then bnd (section_name line) (\<lambda>sec. Inr (sec, d(sec \<mapsto> [])))
      else (case d section of
              None \<Rightarrow> Inl KeyError
            | Some xs \<Rightarrow> Inr (section, d(section \<mapsto> xs @ [line]))))"

fun s7_lines ::
  "string \<times> (string \<rightharpoonup> string list) \<Rightarrow> string list \<Rightarrow> py_error + (string \<times> (string \<rightharpoonup> string list))" where
  "s7_lines sd [] = Inr sd"
| "s7_lines sd (l # ls) = bnd (s7_line sd l) (\<lambda>sd'. s7_lines sd' ls)"

definition parse_file :: "'f shear7_file \<Rightarrow> string list \<Rightarrow> py_error + 'f shear7_file" where
  "parse_file st file_lines =
     bnd (s7_lines (''headers'', s7_data st) file_lines) (\<lambda>sd. Inr (st\<lparr>s7_data := snd sd\<rparr>))"

text \<open>One row of the current profile: \<open>depth\<close> and \<open>speed\<close> of the line.\<close>

definition block3_row :: "(string \<Rightarrow> 'f option) \<Rightarrow> string \<Rightarrow> py_error + ('f \<times> 'f)" where
  "block3_row flt l =
     bnd (idx (split '','' l) 0) (\<lambda>a. bnd (py_float flt a) (\<lambda>depth.
     bnd (idx (split '','' l) 1) (\<lambda>c. bnd (idx (split_ws c) 0) (\<lambda>e.
     bnd (py_float flt e) (\<lambda>speed. Inr (depth, speed))))))"

text \<open>\<open>for i in range(1, number_current_points + 1)\<close>, over the lines \<open>b\<close> of the block.\<close>

fun block3_rows ::
  "(string \<Rightarrow> 'f option) \<Rightarrow> string list \<Rightarrow> nat list \<Rightarrow> py_error + ('f \<times> 'f) list" where
  "block3_rows flt b [] = Inr []"
| "block3_rows flt b (i # is) =
     bnd (idx b i) (\<lambda>l. bnd (block3_row flt l) (\<lambda>r.
     bnd (block3_rows flt b is) (\<lambda>rs. Inr (r # rs))))"

text \<open>\<open>int(block[0].split()[0].split(",")[0])\<close>.\<close>

definition block3_count :: "string \<Rightarrow> py_error + int" where
  "block3_count l0 =
     bnd (idx (split_ws l0) 0) (\<lambda>t. bnd (idx (split '','' t) 0) (\<lambda>u. py_int u))"

definition process_block3 ::
  "(string \<Rightarrow> 'f option) \<Rightarrow> 'f shear7_file \<Rightarrow> py_error + 'f shear7_file" where
  "process_block3 flt st =
     (case s7_data st ''BLOCK 3'' of
        None \<Rightarrow> Inr st
      | Some b \<Rightarrow>
          bnd (idx b 0) (\<lambda>l0. bnd (block3_count l0) (\<lambda>n.
          bnd (block3_rows flt b [1 ..< nat (n + 1)]) (\<lambda>rows.
            Inr (st\<lparr>number_current_points := Some n,
                    current_profile := current_profile st @ rows\<rparr>)))))"

text \<open>
  The reading of the specification for a table with a declared count: each of
  the given lines is read as one row, in order.
\<close>

fun read_rows :: "(string \<Rightarrow> 'f option) \<Rightarrow> string list \<Rightarrow> py_error + ('f \<times> 'f) list" where
  "read_rows flt [] = Inr []"
| "read_rows flt (l # ls) =
     bnd (block3_row flt l) (\<lambda>r. bnd (read_rows flt ls) (\<lambda>rs. Inr (r # rs)))"

section \<open>Theorems\<close>

subsection \<open>The loop of the das file reader\<close>

lemma bnd_Inr_iff: "(bnd m f = Inr y) = (\<exists>x. m = Inr x \<and> f x = Inr y)"
  by (cases m) (simp_all add: bnd_def)

lemma model_marker_dollar: "is_dollar ''$MODEL''" "is_dollar ''$LOAD CASE''"
  by (simp_all add: is_dollar_def)

lemma star_not_dollar: "is_star l \<Longrightarrow> \<not> is_dollar l"
  by (auto simp: is_star_def is_dollar_def split: list.splits)

lemma parse_line_nonempty: "parse_line (d, s, st) l = Inr x \<Longrightarrow> l \<noteq> []"
  by (cases l) auto

lemma parse_line_dollar:
  "is_dollar l \<Longrightarrow> parse_line (d, s, st) l = Inr (d1, s1, st1) \<Longrightarrow>
     d1 = l \<and> s1 = s \<and>
     no_models st1 = (if l = ''$MODEL'' then no_models st + 1 else no_models st) \<and>
     models st1 = (if l = ''$MODEL'' then (models st)(no_models st + 1 \<mapsto> Map.empty) else models st) \<and>
     no_load_cases st1 = (if l = ''$LOAD CASE'' then no_load_cases st + 1 else no_load_cases st) \<and>
     load_cases st1 = (if l = ''$LOAD CASE'' then (load_cases st)(no_load_cases st + 1 \<mapsto> Map.empty) else load_cases st) \<and>
     das_data st1 = (if l = ''$LOAD CASE'' then das_data st else (das_data st)(l \<mapsto> Map.empty))"
  by (cases l) (auto simp: is_dollar_def Let_def split: if_splits)

lemma parse_line_star:
  "is_star l \<Longrightarrow> parse_line (d, s, st) l = Inr (d1, s1, st1) \<Longrightarrow>
     d1 = d \<and> s1 = l \<and> no_models st1 = no_models st \<and> no_load_cases st1 = no_load_cases st \<and>
     (if d = ''$MODEL''
      then (\<exists>m. models st (no_models st) = Some m \<and>
                 models st1 = (models st)(no_models st \<mapsto> m(l \<mapsto> []))) \<and>
           load_cases st1 = load_cases st \<and> das_data st1 = das_data st
      else if d = ''$LOAD CASE''
      then (\<exists>m. load_cases st (no_load_cases st) = Some m \<and>
                 load_cases st1 = (load_cases st)(no_load_cases st \<mapsto> m(l \<mapsto> []))) \<and>
           models st1 = models st \<and> das_data st1 = das_data st
      else (\<exists>m. das_data st d = Some m \<and> das_data st1 = (das_data st)(d \<mapsto> m(l \<mapsto> []))) \<and>
           models st1 = models st \<and> load_cases st1 = load_cases st)"
  by (cases l) (auto simp: is_star_def split: option.splits if_splits)

lemma parse_line_data:
  "\<not> is_dollar l \<Longrightarrow> \<not> is_star l \<Longrightarrow> parse_line (d, s, st) l = Inr (d1, s1, st1) \<Longrightarrow>
     d1 = d \<and> s1 = s \<and> no_models st1 = no_models st \<and> no_load_cases st1 = no_load_cases st \<and>
     (if d = ''$MODEL''
      then (\<exists>m xs. models st (no_models st) = Some m \<and> m s = Some xs \<and>
                 models st1 = (models st)(no_models st \<mapsto> m(s \<mapsto> xs @ [l]))) \<and>
           load_cases st1 = load_cases st \<and> das_data st1 = das_data st
      else if d = ''$LOAD CASE''
      then (\<exists>m xs. load_cases st (no_load_cases st) = Some m \<and> m s = Some xs \<and>
                 load_cases st1 = (load_cases st)(no_load_cases st \<mapsto> m(s \<mapsto> xs @ [l]))) \<and>
           models st1 = models st \<and> das_data st1 = das_data st
      else (\<exists>m xs. das_data st d = Some m \<and> m s = Some xs \<and>
                 das_data st1 = (das_data st)(d \<mapsto> m(s \<mapsto> xs @ [l]))) \<and>
           models st1 = models st \<and> load_cases st1 = load_cases st)"
  by (cases l) (auto simp: is_star_def is_dollar_def split: option.splits if_splits)


declare parse_line.simps [simp del]

lemma sub_sections_empty_cur: "sub_sections c Map.empty ls = sub_sections c' Map.empty ls"
  by (cases ls) auto

lemma parse_lines_Cons_Inr:
  "parse_lines x (l # ls) = Inr z \<Longrightarrow>
     \<exists>d1 s1 st1. parse_line x l = Inr (d1, s1, st1) \<and> parse_lines (d1, s1, st1) ls = Inr z"
  by (auto simp: bnd_Inr_iff)

lemma parse_lines_models_dom:
  "parse_lines (d, s, st) ls = Inr (d', s', st') \<Longrightarrow> models st k \<noteq> None \<Longrightarrow> models st' k \<noteq> None"
proof (induction ls arbitrary: d s st)
  case Nil
  then show ?case by simp
next
  case (Cons l ls)
  from parse_lines_Cons_Inr [OF Cons.prems(1)] obtain d1 s1 st1 where
    step: "parse_line (d, s, st) l = Inr (d1, s1, st1)" and
    rest: "parse_lines (d1, s1, st1) ls = Inr (d', s', st')"
    by blast
  have "models st1 k \<noteq> None"
  proof (cases "is_dollar l")
    case True
    from parse_line_dollar [OF True step] Cons.prems(2) show ?thesis
      by (auto split: if_splits)
  next
    case nd: False
    show ?thesis
    proof (cases "is_star l")
      case True
      from parse_line_star [OF True step] Cons.prems(2) show ?thesis
        by (auto split: if_splits)
    next
      case False
      from parse_line_data [OF nd False step] Cons.prems(2) show ?thesis
        by (auto split: if_splits)
    qed
  qed
  with Cons.IH [OF rest] show ?case .
qed

lemma parse_lines_models:
  "parse_lines (d, s, st) ls = Inr (d', s', st') \<Longrightarrow> models_post d s st ls st'"
proof (induction ls arbitrary: d s st)
  case Nil
  then show ?case by (auto simp: models_post_def)
next
  case (Cons l ls)
  from parse_lines_Cons_Inr [OF Cons.prems(1)] obtain d1 s1 st1 where
    step: "parse_line (d, s, st) l = Inr (d1, s1, st1)" and
    rest: "parse_lines (d1, s1, st1) ls = Inr (d', s', st')"
    by blast
  note IH = Cons.IH [OF rest, unfolded models_post_def]
  show ?case
  proof (cases "is_dollar l")
    case dl: True
    note S = parse_line_dollar [OF dl step]
    show ?thesis
    proof (cases "l = ''$MODEL''")
      case True
      with S have d1: "d1 = ''$MODEL''" and n1: "no_models st1 = no_models st + 1"
        and m1: "models st1 = (models st)(no_models st + 1 \<mapsto> Map.empty)" by auto
      have cur: "models st' (no_models st + 1) = instance_of ''$MODEL'' 1 (l # ls)"
        using IH d1 n1 m1 True sub_sections_empty_cur [of s1 _ "[]"]
        by (simp add: instance_of_def)
      show ?thesis
        unfolding models_post_def
        using IH d1 n1 m1 True cur
        apply (intro conjI allI impI)
             apply simp
            apply simp
           apply simp
          subgoal for k
            by (cases "k = no_models st + 1") (auto simp: instance_of_def)
         apply simp
        apply (simp add: model_marker_dollar)
        done
    next
      case False
      with S have d1: "d1 = l" and n1: "no_models st1 = no_models st"
        and m1: "models st1 = models st" by auto
      show ?thesis
        unfolding models_post_def
        using IH d1 n1 m1 False dl
        by (auto simp: instance_of_def)
    qed
  next
    case nd: False
    have nm: "l \<noteq> ''$MODEL''" using nd model_marker_dollar by auto
    show ?thesis
    proof (cases "is_star l")
      case sl: True
      note S = parse_line_star [OF sl step]
      show ?thesis
      proof (cases "d = ''$MODEL''")
        case True
        with S obtain m where d1: "d1 = d" and s1: "s1 = l" and n1: "no_models st1 = no_models st"
          and m0: "models st (no_models st) = Some m"
          and m1: "models st1 = (models st)(no_models st \<mapsto> m(l \<mapsto> []))" by auto
        show ?thesis
          unfolding models_post_def
          using IH d1 s1 n1 m0 m1 True nm nd sl
          by (auto simp: instance_of_def)
      next
        case False
        with S have d1: "d1 = d" and n1: "no_models st1 = no_models st"
          and m1: "models st1 = models st" by (auto split: if_splits)
        show ?thesis
          unfolding models_post_def
          using IH d1 n1 m1 False nm nd
          by (auto simp: instance_of_def)
      qed
    next
      case ns: False
      note S = parse_line_data [OF nd ns step]
      show ?thesis
      proof (cases "d = ''$MODEL''")
        case True
        with S obtain m xs where d1: "d1 = d" and s1: "s1 = s" and n1: "no_models st1 = no_models st"
          and m0: "models st (no_models st) = Some m" and ms: "m s = Some xs"
          and m1: "models st1 = (models st)(no_models st \<mapsto> m(s \<mapsto> xs @ [l]))" by auto
        show ?thesis
          unfolding models_post_def
          using IH d1 s1 n1 m0 ms m1 True nm nd ns
          by (auto simp: instance_of_def)
      next
        case False
        with S have d1: "d1 = d" and n1: "no_models st1 = no_models st"
          and m1: "models st1 = models st" by (auto split: if_splits)
        show ?thesis
          unfolding models_post_def
          using IH d1 n1 m1 False nm nd
          by (auto simp: instance_of_def)
      qed
    qed
  qed
qed

lemma parse_lines_load_cases_dom:
  "parse_lines (d, s, st) ls = Inr (d', s', st') \<Longrightarrow> load_cases st k \<noteq> None \<Longrightarrow> load_cases st' k \<noteq> None"
proof (induction ls arbitrary: d s st)
  case Nil
  then show ?case by simp
next
  case (Cons l ls)
  from parse_lines_Cons_Inr [OF Cons.prems(1)] obtain d1 s1 st1 where
    step: "parse_line (d, s, st) l = Inr (d1, s1, st1)" and
    rest: "parse_lines (d1, s1, st1) ls = Inr (d', s', st')"
    by blast
  have "load_cases st1 k \<noteq> None"
  proof (cases "is_dollar l")
    case True
    from parse_line_dollar [OF True step] Cons.prems(2) show ?thesis
      by (auto split: if_splits)
  next
    case nd: False
    show ?thesis
    proof (cases "is_star l")
      case True
      from parse_line_star [OF True step] Cons.prems(2) show ?thesis
        by (auto split: if_splits)
    next
      case False
      from parse_line_data [OF nd False step] Cons.prems(2) show ?thesis
        by (auto split: if_splits)
    qed
  qed
  with Cons.IH [OF rest] show ?case .
qed

lemma parse_lines_load_cases:
  "parse_lines (d, s, st) ls = Inr (d', s', st') \<Longrightarrow> load_cases_post d s st ls st'"
proof (induction ls arbitrary: d s st)
  case Nil
  then show ?case by (auto simp: load_cases_post_def)
next
  case (Cons l ls)
  from parse_lines_Cons_Inr [OF Cons.prems(1)] obtain d1 s1 st1 where
    step: "parse_line (d, s, st) l = Inr (d1, s1, st1)" and
    rest: "parse_lines (d1, s1, st1) ls = Inr (d', s', st')"
    by blast
  note IH = Cons.IH [OF rest, unfolded load_cases_post_def]
  show ?case
  proof (cases "is_dollar l")
    case dl: True
    note S = parse_line_dollar [OF dl step]
    show ?thesis
    proof (cases "l = ''$LOAD CASE''")
      case True
      with S have d1: "d1 = ''$LOAD CASE''" and n1: "no_load_cases st1 = no_load_cases st + 1"
        and m1: "load_cases st1 = (load_cases st)(no_load_cases st + 1 \<mapsto> Map.empty)" by auto
      have cur: "load_cases st' (no_load_cases st + 1) = instance_of ''$LOAD CASE'' 1 (l # ls)"
        using IH d1 n1 m1 True sub_sections_empty_cur [of s1 _ "[]"]
        by (simp add: instance_of_def)
      show ?thesis
        unfolding load_cases_post_def
        using IH d1 n1 m1 True cur
        apply (intro conjI allI impI)
             apply simp
            apply simp
           apply simp
          subgoal for k
            by (cases "k = no_load_cases st + 1") (auto simp: instance_of_def)
         apply simp
        apply (simp add: model_marker_dollar)
        done
    next
      case False
      with S have d1: "d1 = l" and n1: "no_load_cases st1 = no_load_cases st"
        and m1: "load_cases st1 = load_cases st" by auto
      show ?thesis
        unfolding load_cases_post_def
        using IH d1 n1 m1 False dl
        by (auto simp: instance_of_def)
    qed
  next
    case nd: False
    have nm: "l \<noteq> ''$LOAD CASE''" using nd model_marker_dollar by auto
    show ?thesis
    proof (cases "is_star l")
      case sl: True
      note S = parse_line_star [OF sl step]
      show ?thesis
      proof (cases "d = ''$LOAD CASE''")
        case True
        with S obtain m where d1: "d1 = d" and s1: "s1 = l" and n1: "no_load_cases st1 = no_load_cases st"
          and m0: "load_cases st (no_load_cases st) = Some m"
          and m1: "load_cases st1 = (load_cases st)(no_load_cases st \<mapsto> m(l \<mapsto> []))" by auto
        show ?thesis
          unfolding load_cases_post_def
          using IH d1 s1 n1 m0 m1 True nm nd sl
          by (auto simp: instance_of_def)
      next
        case False
        with S have d1: "d1 = d" and n1: "no_load_cases st1 = no_load_cases st"
          and m1: "load_cases st1 = load_cases st" by (auto split: if_splits)
        show ?thesis
          unfolding load_cases_post_def
          using IH d1 n1 m1 False nm nd
          by (auto simp: instance_of_def)
      qed
    next
      case ns: False
      note S = parse_line_data [OF nd ns step]
      show ?thesis
      proof (cases "d = ''$LOAD CASE''")
        case True
        with S obtain m xs where d1: "d1 = d" and s1: "s1 = s" and n1: "no_load_cases st1 = no_load_cases st"
          and m0: "load_cases st (no_load_cases st) = Some m" and ms: "m s = Some xs"
          and m1: "load_cases st1 = (load_cases st)(no_load_cases st \<mapsto> m(s \<mapsto> xs @ [l]))" by auto
        show ?thesis
          unfolding load_cases_post_def
          using IH d1 s1 n1 m0 ms m1 True nm nd ns
          by (auto simp: instance_of_def)
      next
        case False
        with S have d1: "d1 = d" and n1: "no_load_cases st1 = no_load_cases st"
          and m1: "load_cases st1 = load_cases st" by (auto split: if_splits)
        show ?thesis
          unfolding load_cases_post_def
          using IH d1 n1 m1 False nm nd
          by (auto simp: instance_of_def)
      qed
    qed
  qed
qed


lemma parse_line_no_models:
  assumes "parse_line (d, s, st) l = Inr (d1, s1, st1)"
  shows "no_models st1 = (if l = ''$MODEL'' then no_models st + 1 else no_models st)"
    and "l = ''$MODEL'' \<Longrightarrow> models st1 (no_models st + 1) \<noteq> None"
proof -
  consider "is_dollar l" | "\<not> is_dollar l" "is_star l" | "\<not> is_dollar l" "\<not> is_star l"
    by blast
  then have "no_models st1 = (if l = ''$MODEL'' then no_models st + 1 else no_models st) \<and>
             (l = ''$MODEL'' \<longrightarrow> models st1 (no_models st + 1) \<noteq> None)"
  proof cases
    case 1
    from parse_line_dollar [OF 1 assms] show ?thesis by simp
  next
    case 2
    with parse_line_star [OF 2(2) assms] model_marker_dollar show ?thesis by auto
  next
    case 3
    with parse_line_data [OF 3 assms] model_marker_dollar show ?thesis by auto
  qed
  then show "no_models st1 = (if l = ''$MODEL'' then no_models st + 1 else no_models st)"
    and "l = ''$MODEL'' \<Longrightarrow> models st1 (no_models st + 1) \<noteq> None" by simp_all
qed

lemma parse_lines_models_new:
  "parse_lines (d, s, st) ls = Inr (d', s', st') \<Longrightarrow> no_models st < k \<Longrightarrow> k \<le> no_models st' \<Longrightarrow>
     models st' k \<noteq> None"
proof (induction ls arbitrary: d s st)
  case Nil
  then show ?case by simp
next
  case (Cons l ls)
  from parse_lines_Cons_Inr [OF Cons.prems(1)] obtain d1 s1 st1 where
    step: "parse_line (d, s, st) l = Inr (d1, s1, st1)" and
    rest: "parse_lines (d1, s1, st1) ls = Inr (d', s', st')"
    by blast
  note N = parse_line_no_models [OF step]
  show ?case
  proof (cases "l = ''$MODEL'' \<and> k = no_models st + 1")
    case True
    with N(2) have "models st1 k \<noteq> None" by simp
    with parse_lines_models_dom [OF rest] show ?thesis .
  next
    case False
    with N(1) Cons.prems(2) have "no_models st1 < k" by (auto split: if_splits)
    with Cons.IH [OF rest] Cons.prems(3) show ?thesis by simp
  qed
qed

lemma parse_line_no_load_cases:
  assumes "parse_line (d, s, st) l = Inr (d1, s1, st1)"
  shows "no_load_cases st1 = (if l = ''$LOAD CASE'' then no_load_cases st + 1 else no_load_cases st)"
    and "l = ''$LOAD CASE'' \<Longrightarrow> load_cases st1 (no_load_cases st + 1) \<noteq> None"
proof -
  consider "is_dollar l" | "\<not> is_dollar l" "is_star l" | "\<not> is_dollar l" "\<not> is_star l"
    by blast
  then have "no_load_cases st1 = (if l = ''$LOAD CASE'' then no_load_cases st + 1 else no_load_cases st) \<and>
             (l = ''$LOAD CASE'' \<longrightarrow> load_cases st1 (no_load_cases st + 1) \<noteq> None)"
  proof cases
    case 1
    from parse_line_dollar [OF 1 assms] show ?thesis by simp
  next
    case 2
    with parse_line_star [OF 2(2) assms] model_marker_dollar show ?thesis by auto
  next
    case 3
    with parse_line_data [OF 3 assms] model_marker_dollar show ?thesis by auto
  qed
  then show "no_load_cases st1 = (if l = ''$LOAD CASE'' then no_load_cases st + 1 else no_load_cases st)"
    and "l = ''$LOAD CASE'' \<Longrightarrow> load_cases st1 (no_load_cases st + 1) \<noteq> None" by simp_all
qed

lemma parse_lines_load_cases_new:
  "parse_lines (d, s, st) ls = Inr (d', s', st') \<Longrightarrow> no_load_cases st < k \<Longrightarrow> k \<le> no_load_cases st' \<Longrightarrow>
     load_cases st' k \<noteq> None"
proof (induction ls arbitrary: d s st)
  case Nil
  then show ?case by simp
next
  case (Cons l ls)
  from parse_lines_Cons_Inr [OF Cons.prems(1)] obtain d1 s1 st1 where
    step: "parse_line (d, s, st) l = Inr (d1, s1, st1)" and
    rest: "parse_lines (d1, s1, st1) ls = Inr (d', s', st')"
    by blast
  note N = parse_line_no_load_cases [OF step]
  show ?case
  proof (cases "l = ''$LOAD CASE'' \<and> k = no_load_cases st + 1")
    case True
    with N(2) have "load_cases st1 k \<noteq> None" by simp
    with parse_lines_load_cases_dom [OF rest] show ?thesis .
  next
    case False
    with N(1) Cons.prems(2) have "no_load_cases st1 < k" by (auto split: if_splits)
    with Cons.IH [OF rest] Cons.prems(3) show ?thesis by simp
  qed
qed

lemma parse_das_file_data_Inr:
  "parse_das_file_data st0 data = Inr st \<Longrightarrow>
     \<exists>d s. parse_lines (''headers'', ''headers'', st0) data = Inr (d, s, st)"
  by (auto simp: parse_das_file_data_def bnd_Inr_iff)

lemma setup_variables_groups:
  "no_models (setup_variables path) = 0" "models (setup_variables path) = Map.empty"
  "no_load_cases (setup_variables path) = 0" "load_cases (setup_variables path) = Map.empty"
  by (simp_all add: setup_variables_def)

text \<open>
  C1. When the loop of \<open>parse_das_file_data\<close> completes on the lines \<open>data\<close>,
  started from the object that \<open>setup_variables\<close> leaves, the number of model
  instances is the number \<open>r\<close> of lines equal to \<open>$MODEL\<close>, the keys of \<open>models\<close>
  are exactly 1 to \<open>r\<close>, and the instance under key \<open>k\<close> holds the sub-sections
  built from the lines that follow the \<open>k\<close>-th marker, up to the next dollar
  line. The same holds for \<open>$LOAD CASE\<close> and \<open>load_cases\<close>.
\<close>

theorem occurrence_counting:
  assumes "parse_das_file_data (setup_variables path) data = Inr st"
  shows "no_models st = length (filter (\<lambda>l. l = ''$MODEL'') data) \<and>
         (\<forall>k. (models st k \<noteq> None) = (1 \<le> k \<and> k \<le> no_models st)) \<and>
         (\<forall>k. 1 \<le> k \<and> k \<le> no_models st \<longrightarrow> models st k = instance_of ''$MODEL'' k data) \<and>
         no_load_cases st = length (filter (\<lambda>l. l = ''$LOAD CASE'') data) \<and>
         (\<forall>k. (load_cases st k \<noteq> None) = (1 \<le> k \<and> k \<le> no_load_cases st)) \<and>
         (\<forall>k. 1 \<le> k \<and> k \<le> no_load_cases st \<longrightarrow>
              load_cases st k = instance_of ''$LOAD CASE'' k data)"
proof -
  let ?st0 = "setup_variables path :: 'a das_file"
  from parse_das_file_data_Inr [OF assms] obtain d s where
    run: "parse_lines (''headers'', ''headers'', ?st0) data = Inr (d, s, st)" by blast
  note M = parse_lines_models [OF run, unfolded models_post_def setup_variables_groups]
  note L = parse_lines_load_cases [OF run, unfolded load_cases_post_def setup_variables_groups]
  have m_count: "no_models st = length (filter (\<lambda>l. l = ''$MODEL'') data)"
    using M by simp
  have m_inst: "\<forall>k. 1 \<le> k \<and> k \<le> no_models st \<longrightarrow> models st k = instance_of ''$MODEL'' k data"
    using M by simp
  have m_dom: "\<forall>k. (models st k \<noteq> None) = (1 \<le> k \<and> k \<le> no_models st)"
  proof
    fix k
    consider "k = 0" | "no_models st < k" | "1 \<le> k \<and> k \<le> no_models st" by linarith
    then show "(models st k \<noteq> None) = (1 \<le> k \<and> k \<le> no_models st)"
    proof cases
      case 1 then show ?thesis using M by auto
    next
      case 2 then show ?thesis using M by auto
    next
      case 3
      with parse_lines_models_new [OF run, of k] show ?thesis
        by (simp add: setup_variables_groups)
    qed
  qed
  have l_count: "no_load_cases st = length (filter (\<lambda>l. l = ''$LOAD CASE'') data)"
    using L by simp
  have l_inst: "\<forall>k. 1 \<le> k \<and> k \<le> no_load_cases st \<longrightarrow>
      load_cases st k = instance_of ''$LOAD CASE'' k data"
    using L by simp
  have l_dom: "\<forall>k. (load_cases st k \<noteq> None) = (1 \<le> k \<and> k \<le> no_load_cases st)"
  proof
    fix k
    consider "k = 0" | "no_load_cases st < k" | "1 \<le> k \<and> k \<le> no_load_cases st" by linarith
    then show "(load_cases st k \<noteq> None) = (1 \<le> k \<and> k \<le> no_load_cases st)"
    proof cases
      case 1 then show ?thesis using L by auto
    next
      case 2 then show ?thesis using L by auto
    next
      case 3
      with parse_lines_load_cases_new [OF run, of k] show ?thesis
        by (simp add: setup_variables_groups)
    qed
  qed
  from m_count m_dom m_inst l_count l_dom l_inst show ?thesis by blast
qed

subsection \<open>The general-section dictionary\<close>

lemma parse_line_general_section:
  assumes "parse_line (d, s, st) l = Inr (d1, s1, st1)"
    and "das_data st ''$LOAD CASE'' = None"
    and "das_data st ''$MODEL'' = None \<or> das_data st ''$MODEL'' = Some Map.empty"
  shows "das_data st1 ''$LOAD CASE'' = None \<and>
         (das_data st1 ''$MODEL'' = None \<or> das_data st1 ''$MODEL'' = Some Map.empty) \<and>
         (l = ''$MODEL'' \<or> das_data st ''$MODEL'' = Some Map.empty \<longrightarrow>
            das_data st1 ''$MODEL'' = Some Map.empty)"
proof -
  consider "is_dollar l" | "\<not> is_dollar l" "is_star l" | "\<not> is_dollar l" "\<not> is_star l"
    by blast
  then show ?thesis
  proof cases
    case 1
    from parse_line_dollar [OF 1 assms(1)] assms(2,3) show ?thesis by auto
  next
    case 2
    have "l \<noteq> ''$MODEL''" using 2(1) model_marker_dollar by auto
    with parse_line_star [OF 2(2) assms(1)] assms(2,3) show ?thesis
      by (auto split: if_splits)
  next
    case 3
    have "l \<noteq> ''$MODEL''" using 3(1) model_marker_dollar by auto
    with parse_line_data [OF 3 assms(1)] assms(2,3) show ?thesis
      by (auto split: if_splits)
  qed
qed

lemma parse_lines_general_section:
  "parse_lines (d, s, st) ls = Inr (d', s', st') \<Longrightarrow>
   das_data st ''$LOAD CASE'' = None \<Longrightarrow>
   das_data st ''$MODEL'' = None \<or> das_data st ''$MODEL'' = Some Map.empty \<Longrightarrow>
     das_data st' ''$LOAD CASE'' = None \<and>
     (''$MODEL'' \<in> set ls \<or> das_data st ''$MODEL'' = Some Map.empty \<longrightarrow>
        das_data st' ''$MODEL'' = Some Map.empty)"
proof (induction ls arbitrary: d s st)
  case Nil
  then show ?case by simp
next
  case (Cons l ls)
  from parse_lines_Cons_Inr [OF Cons.prems(1)] obtain d1 s1 st1 where
    step: "parse_line (d, s, st) l = Inr (d1, s1, st1)" and
    rest: "parse_lines (d1, s1, st1) ls = Inr (d', s', st')"
    by blast
  note S = parse_line_general_section [OF step Cons.prems(2,3)]
  from S have a: "das_data st1 ''$LOAD CASE'' = None"
    and b: "das_data st1 ''$MODEL'' = None \<or> das_data st1 ''$MODEL'' = Some Map.empty" by simp_all
  from Cons.IH [OF rest a b] S show ?case by auto
qed

text \<open>
  C10. When the loop of \<open>parse_das_file_data\<close> completes on lines that contain a
  \<open>$MODEL\<close> marker, \<open>das_data\<close> maps \<open>$MODEL\<close> to an empty dictionary: the
  star sections and data lines after the marker go to \<open>models\<close> only. No
  \<open>$LOAD CASE\<close> key is ever created in \<open>das_data\<close>.
\<close>

theorem model_entry_stays_empty:
  assumes "parse_das_file_data (setup_variables path) data = Inr st"
    and "''$MODEL'' \<in> set data"
  shows "das_data st ''$MODEL'' = Some Map.empty \<and> das_data st ''$LOAD CASE'' = None"
proof -
  let ?st0 = "setup_variables path :: 'a das_file"
  from parse_das_file_data_Inr [OF assms(1)] obtain d s where
    run: "parse_lines (''headers'', ''headers'', ?st0) data = Inr (d, s, st)" by blast
  have "das_data ?st0 ''$LOAD CASE'' = None" "das_data ?st0 ''$MODEL'' = None"
    by (simp_all add: setup_variables_def)
  with parse_lines_general_section [OF run] assms(2) show ?thesis by simp
qed

subsection \<open>A das file with two models and one load case\<close>

lemma das_example_run:
  "\<exists>st. parse_das_file_data (setup_variables ''a.das'' :: real das_file)
     [''$MODEL'', ''*NODE'', ''1,0,0'', ''$LOAD CASE'', ''*DIRECTORY'',
      ''DIRECTORY=a'', ''$MODEL'', ''*OCEAN'', ''100''] = Inr st"
  by (simp add: parse_das_file_data_def bnd_def parse_line.simps setup_variables_def)

theorem occurrence_counting_witness:
  "\<exists>st. parse_das_file_data (setup_variables ''a.das'' :: real das_file)
     [''$MODEL'', ''*NODE'', ''1,0,0'', ''$LOAD CASE'', ''*DIRECTORY'',
      ''DIRECTORY=a'', ''$MODEL'', ''*OCEAN'', ''100''] = Inr st \<and>
     no_models st = 2 \<and> no_load_cases st = 1 \<and>
     models st 1 = Some [''*NODE'' \<mapsto> [''1,0,0'']] \<and>
     models st 2 = Some [''*OCEAN'' \<mapsto> [''100'']] \<and>
     load_cases st 1 = Some [''*DIRECTORY'' \<mapsto> [''DIRECTORY=a'']]"
proof -
  from das_example_run obtain st where
    run: "parse_das_file_data (setup_variables ''a.das'' :: real das_file)
     [''$MODEL'', ''*NODE'', ''1,0,0'', ''$LOAD CASE'', ''*DIRECTORY'',
      ''DIRECTORY=a'', ''$MODEL'', ''*OCEAN'', ''100''] = Inr st"
    by blast
  from occurrence_counting [OF run] have
    "no_models st = 2" "no_load_cases st = 1"
    "models st 1 = Some [''*NODE'' \<mapsto> [''1,0,0'']]"
    "models st 2 = Some [''*OCEAN'' \<mapsto> [''100'']]"
    "load_cases st 1 = Some [''*DIRECTORY'' \<mapsto> [''DIRECTORY=a'']]"
    by (simp_all add: instance_of_def is_dollar_def is_star_def)
  with run show ?thesis by blast
qed

theorem model_entry_stays_empty_witness:
  "\<exists>st. parse_das_file_data (setup_variables ''a.das'' :: real das_file)
     [''$MODEL'', ''*NODE'', ''1,0,0'', ''$LOAD CASE'', ''*DIRECTORY'',
      ''DIRECTORY=a'', ''$MODEL'', ''*OCEAN'', ''100''] = Inr st \<and>
     das_data st ''$MODEL'' = Some Map.empty \<and> das_data st ''$LOAD CASE'' = None \<and>
     models st 1 = Some [''*NODE'' \<mapsto> [''1,0,0'']]"
proof -
  from das_example_run obtain st where
    run: "parse_das_file_data (setup_variables ''a.das'' :: real das_file)
     [''$MODEL'', ''*NODE'', ''1,0,0'', ''$LOAD CASE'', ''*DIRECTORY'',
      ''DIRECTORY=a'', ''$MODEL'', ''*OCEAN'', ''100''] = Inr st"
    by blast
  from model_entry_stays_empty [OF run] have
    "das_data st ''$MODEL'' = Some Map.empty \<and> das_data st ''$LOAD CASE'' = None" by simp
  moreover from run have "models st 1 = Some [''*NODE'' \<mapsto> [''1,0,0'']]"
    by (auto simp: parse_das_file_data_def bnd_def parse_line.simps setup_variables_def)
  ultimately show ?thesis using run by blast
qed

subsection \<open>The modal shape scenario\<close>

text \<open>
  C8. Reading the six-line modal shape text of the specification succeeds and
  gives 2 modes and 3 nodes; mode 1 has natural frequency 1.5 and the mode shape
  sequence [1.0, 0.5]. The decimal literals of the input are dyadic, so their
  exact values are the floating-point numbers Python stores.
\<close>

theorem mds_scenario:
  "(case read_mds_file float_dec
      ''2 3\<newline>1 1.5\<newline>2 2.0\<newline>1 0.0 1.0\<newline>1 2.0 0.5\<newline>2 0.0 2.0'' of
     Inl e \<Rightarrow> False
   | Inr r \<Rightarrow> no_of_modes r = 2 \<and> no_of_nodes r = 3 \<and>
       map_option nat_freq (modes r 1) = Some 1.5 \<and>
       map_option mode_shape (modes r 1) = Some [1.0, 0.5])"
  by code_simp

subsection \<open>Tokens that are no numbers\<close>

text \<open>
  C3, as stated, fails. The token abc is no number; under its default flags
  \<open>convert_to_number\<close> returns the raw string, and the constructor of the das
  reader, which calls \<open>float\<close> directly in \<open>process_water_depth\<close>, raises
  ValueError on a water depth abc.
\<close>

theorem numeric_fallback_counterexample:
  "float_dec ''abc'' = None \<and>
   convert_to_number float_dec ''abc'' False False = Inr (PyStr ''abc'') \<and>
   (case das_init float_dec ''a.das''
      ''$ANALYSIS\<newline>*UNITS\<newline>UNITS=IMPERIAL\<newline>$MODEL\<newline>*OCEAN\<newline>abc,1\<newline>'' of
      Inl e \<Rightarrow> e = ValueError | Inr st \<Rightarrow> False)"
  by code_simp

text \<open>
  C3, amended. For a token that fails the float conversion, \<open>convert_to_number\<close>
  returns None only when \<open>return_none\<close> is set, NaN when \<open>return_np_nan\<close> is
  set, and under the default flags the raw string itself; it raises only when
  both flags are set. It has no error list to append to.
\<close>

theorem convert_to_number_fallback:
  assumes "flt s = None"
  shows "convert_to_number flt s return_none return_np_nan =
           (if return_none \<and> return_np_nan then Inl PyException
            else if return_none then Inr PyNone
            else if return_np_nan then Inr PyNaN
            else Inr (PyStr s))"
  using assms by (simp add: convert_to_number_def)

theorem convert_to_number_fallback_witness:
  "convert_to_number float_dec ''n/a'' True False = Inr PyNone \<and>
   convert_to_number float_dec ''n/a'' False True = Inr PyNaN \<and>
   convert_to_number float_dec ''n/a'' False False = Inr (PyStr ''n/a'')"
proof -
  have f: "float_dec ''n/a'' = None" by code_simp
  show ?thesis
    using f convert_to_number_fallback [of float_dec "''n/a''" True False]
      convert_to_number_fallback [of float_dec "''n/a''" False True]
      convert_to_number_fallback [of float_dec "''n/a''" False False]
    by simp
qed

subsection \<open>A das file without an analysis section\<close>

text \<open>
  C2 at a das file with a model and no \<open>$ANALYSIS\<close> line: \<open>get_units\<close> guards
  the lookup and records the soft error, \<open>get_analysis_type\<close> then indexes
  \<open>das_data\<close> with the missing key, and the constructor ends with KeyError.
\<close>

theorem missing_analysis_raises:
  "(case parse_das_file_data (setup_variables ''a.das'' :: real das_file)
           (read_das_file ''$MODEL\<newline>*OCEAN\<newline>100.0\<newline>'') of
      Inl e \<Rightarrow> False
    | Inr st \<Rightarrow> (case get_units st of
          Inl e \<Rightarrow> False
        | Inr st2 \<Rightarrow> errors st2 = [''Units not found''] \<and>
            (case get_analysis_type st2 of Inl e \<Rightarrow> e = KeyError | Inr st3 \<Rightarrow> False))) \<and>
   (case das_init float_dec ''a.das'' ''$MODEL\<newline>*OCEAN\<newline>100.0\<newline>'' of
      Inl e \<Rightarrow> e = KeyError | Inr st \<Rightarrow> False)"
  by code_simp

subsection \<open>Offsetting elevations\<close>

text \<open>
  C6, as stated, fails. A tab file is parsed with the Y value 2 in series S;
  after \<open>offset_elevations\<close> with offset 10 the attribute \<open>tab_file_data\<close> of the
  same reader holds 12 there.
\<close>

theorem offset_elevations_counterexample:
  "(case parse_contents float_dec (tab_start ())
      [''Table No. 1 - Envelope\<newline>'', ''Plot Data: S\<newline>'', ''1.0'' @ [CHR 0x09] @ ''2.0\<newline>''] of
     Inl e \<Rightarrow> False
   | Inr st \<Rightarrow>
       map_option (\<lambda>tb. map_option series_Y (tb ''S'')) (tab_file_data st ''Table No. 1 - Envelope'')
         = Some (Some [2]) \<and>
       (case offset_elevations (tab_file_data st) ''Table No. 1 - Envelope'' 10 AxisY of
          Inl e \<Rightarrow> False
        | Inr td \<Rightarrow>
            map_option (\<lambda>tb. map_option series_Y (tb ''S'')) (td ''Table No. 1 - Envelope'')
              = Some (Some [12])))"
  by code_simp

text \<open>
  C6, amended. For a table of the parsed data, \<open>offset_elevations\<close> rewrites
  \<open>tab_file_data\<close> itself: every value of the chosen axis, in every series of
  that table, has the offset added; the other tables are as before. No separate
  record is built.
\<close>

theorem offset_elevations_in_place:
  assumes "td t = Some tb"
  shows "\<exists>td' tb'. offset_elevations td t offset ax = Inr td' \<and> td' t = Some tb' \<and>
           (\<forall>t'. t' \<noteq> t \<longrightarrow> td' t' = td t') \<and>
           (\<forall>sr. tb' sr = map_option (offset_series ax offset) (tb sr))"
  using assms by (simp add: offset_elevations_def)

lemma offset_series_Y:
  "series_Y (offset_series AxisY offset e) = map (\<lambda>val. val + offset) (series_Y e)"
  "series_X (offset_series AxisY offset e) = series_X e"
  by (simp_all add: offset_series_def)

theorem offset_elevations_in_place_witness:
  "\<exists>td'. offset_elevations
      [''T'' \<mapsto> [''S'' \<mapsto> \<lparr>series_X = [1], series_Y = [2::real], X_Label = [], Y_Label = [],
                            X_Units = [], Y_Units = []\<rparr>]] ''T'' 10 AxisY = Inr td' \<and>
     map_option (\<lambda>tb. map_option series_Y (tb ''S'')) (td' ''T'') = Some (Some [12]) \<and>
     map_option (\<lambda>tb. map_option series_X (tb ''S'')) (td' ''T'') = Some (Some [1])"
proof -
  let ?e = "\<lparr>series_X = [1], series_Y = [2::real], X_Label = [], Y_Label = [],
              X_Units = [], Y_Units = []\<rparr>"
  let ?td = "[''T'' \<mapsto> [''S'' \<mapsto> ?e]]"
  have h: "?td ''T'' = Some [''S'' \<mapsto> ?e]" by simp
  from h offset_elevations_in_place [of ?td "''T''" "[''S'' \<mapsto> ?e]" 10 AxisY] obtain td' tb' where
    r: "offset_elevations ?td ''T'' 10 AxisY = Inr td'" and t: "td' ''T'' = Some tb'"
    and s: "\<forall>sr. tb' sr = map_option (offset_series AxisY 10) ([''S'' \<mapsto> ?e] sr)"
    by blast
  from s have "tb' ''S'' = Some (offset_series AxisY 10 ?e)" by simp
  with r t show ?thesis by (simp add: offset_series_def)
qed

subsection \<open>The convergence flag of the solver output\<close>

lemma sentinels_converged:
  "converged (sentinels solver st line) =
     (if is_failure line then Some False
      else if is_success solver line then Some True
      else converged st)"
  by (simp add: sentinels_def is_failure_def is_success_def Let_def)

lemma sentinels_out_data: "out_data (sentinels solver st line) = out_data st"
  by (simp add: sentinels_def Let_def)

lemma out_line_total:
  assumes "out_data st key \<noteq> None"
  shows "\<exists>key' st'. out_line solver (key, st) l = Inr (key', st') \<and> out_data st' key' \<noteq> None \<and>
           converged st' = converged (sentinels solver st l)"
proof -
  from assms obtain xs where "out_data (sentinels solver st l) key = Some xs"
    by (auto simp: sentinels_out_data)
  then show ?thesis
    by (auto simp: out_line_def Let_def)
qed

text \<open>The loop never raises, and the last sentinel line decides the flag.\<close>

lemma out_lines_total:
  "out_data st key \<noteq> None \<Longrightarrow>
     \<exists>key' st'. out_lines solver (key, st) ls = Inr (key', st') \<and>
       converged st' =
         foldl (\<lambda>c l. if is_failure l then Some False
                       else if is_success solver l then Some True else c) (converged st) ls"
proof (induction ls arbitrary: key st)
  case Nil
  then show ?case by simp
next
  case (Cons l ls)
  from out_line_total [OF Cons.prems, of solver l] obtain key1 st1 where
    step: "out_line solver (key, st) l = Inr (key1, st1)" and d: "out_data st1 key1 \<noteq> None"
    and c: "converged st1 = converged (sentinels solver st l)" by blast
  from Cons.IH [OF d] obtain key' st' where
    rest: "out_lines solver (key1, st1) ls = Inr (key', st')" and
    c': "converged st' = foldl (\<lambda>c l. if is_failure l then Some False
                       else if is_success solver l then Some True else c) (converged st1) ls"
    by blast
  from step rest have "out_lines solver (key, st) (l # ls) = Inr (key', st')"
    by (simp add: bnd_def)
  with c c' show ?case by (simp add: sentinels_converged)
qed

lemma flag_none:
  "(foldl (\<lambda>c l. if is_failure l then Some False
                  else if is_success solver l then Some True else c) c0 ls = None) =
     (c0 = None \<and> (\<forall>l\<in>set ls. \<not> is_success solver l \<and> \<not> is_failure l))"
  by (induction ls arbitrary: c0) auto

lemma flag_true_kept:
  "\<forall>p\<in>set post. \<not> is_failure p \<Longrightarrow>
     foldl (\<lambda>c l. if is_failure l then Some False
                   else if is_success solver l then Some True else c) (Some True) post = Some True"
  by (induction post) auto

lemma flag_false_kept:
  "\<forall>p\<in>set post. is_success solver p \<longrightarrow> is_failure p \<Longrightarrow>
     foldl (\<lambda>c l. if is_failure l then Some False
                   else if is_success solver l then Some True else c) (Some False) post = Some False"
  by (induction post) auto

text \<open>
  C9. \<open>read_out_file\<close> always completes, and its flag \<open>converged\<close> has three
  values. It is None exactly when no line holds a sentinel of either kind. It is
  True when a line holds the success phrase (compared in lower case) and neither
  that line nor a later one holds one of the four error phrases. It is False
  when a line holds an error phrase and no later line holds the success phrase
  without an error phrase.
\<close>

theorem converged_three_valued:
  "\<exists>st. read_out_file solver ls = Inr st \<and>
     ((converged st = None) = (\<forall>l\<in>set ls. \<not> is_success solver l \<and> \<not> is_failure l)) \<and>
     (\<forall>pre l post. ls = pre @ l # post \<and> is_success solver l \<and> \<not> is_failure l \<and>
         (\<forall>p\<in>set post. \<not> is_failure p) \<longrightarrow> converged st = Some True) \<and>
     (\<forall>pre l post. ls = pre @ l # post \<and> is_failure l \<and>
         (\<forall>p\<in>set post. is_success solver p \<longrightarrow> is_failure p) \<longrightarrow> converged st = Some False)"
proof -
  let ?f = "\<lambda>c l. if is_failure l then Some False
                   else if is_success solver l then Some True else c"
  have "out_data out_start ''headers'' \<noteq> None" by (simp add: out_start_def)
  from out_lines_total [OF this, of solver ls] obtain key' st where
    run: "out_lines solver (''headers'', out_start) ls = Inr (key', st)" and
    c: "converged st = foldl ?f None ls"
    by (auto simp: out_start_def)
  from run have r: "read_out_file solver ls = Inr st"
    by (simp add: read_out_file_def bnd_def)
  have n: "(converged st = None) = (\<forall>l\<in>set ls. \<not> is_success solver l \<and> \<not> is_failure l)"
    using c flag_none [of solver None ls] by simp
  have t: "converged st = Some True"
    if "ls = pre @ l # post" "is_success solver l" "\<not> is_failure l" "\<forall>p\<in>set post. \<not> is_failure p"
    for pre l post
    using that c flag_true_kept [of post solver] by simp
  have f: "converged st = Some False"
    if "ls = pre @ l # post" "is_failure l" "\<forall>p\<in>set post. is_success solver p \<longrightarrow> is_failure p"
    for pre l post
    using that c flag_false_kept [of post solver] by simp
  show ?thesis
  proof (intro exI [of _ st] conjI allI impI)
    show "read_out_file solver ls = Inr st" by (rule r)
    show "(converged st = None) = (\<forall>l\<in>set ls. \<not> is_success solver l \<and> \<not> is_failure l)"
      by (rule n)
    show "converged st = Some True"
      if "ls = pre @ l # post \<and> is_success solver l \<and> \<not> is_failure l \<and>
          (\<forall>p\<in>set post. \<not> is_failure p)" for pre l post
      using that t by blast
    show "converged st = Some False"
      if "ls = pre @ l # post \<and> is_failure l \<and>
          (\<forall>p\<in>set post. is_success solver p \<longrightarrow> is_failure p)" for pre l post
      using that f by blast
  qed
qed

lemma out_example_lines:
  "is_success ''deepriser'' ''Successful DeepRiser Analysis\<newline>''"
  "\<not> is_failure ''Successful DeepRiser Analysis\<newline>''"
  "is_failure ''Error: Solution has failed to converge.\<newline>''"
  "\<not> is_success ''deepriser'' ''run 1\<newline>''"
  "\<not> is_failure ''run 1\<newline>''"
  "\<not> is_success ''deepriser'' ''*** NODES ***\<newline>''"
  "\<not> is_failure ''*** NODES ***\<newline>''"
  by code_simp+

theorem converged_three_valued_witness:
  "(\<exists>st. read_out_file ''deepriser''
       [''run 1\<newline>'', ''Successful DeepRiser Analysis\<newline>''] = Inr st \<and> converged st = Some True) \<and>
   (\<exists>st. read_out_file ''deepriser''
       [''Successful DeepRiser Analysis\<newline>'', ''Error: Solution has failed to converge.\<newline>'']
         = Inr st \<and> converged st = Some False) \<and>
   (\<exists>st. read_out_file ''deepriser'' [''run 1\<newline>'', ''*** NODES ***\<newline>''] = Inr st \<and>
       converged st = None)"
proof -
  have a: "\<exists>st. read_out_file solver [l1, l2] = Inr st \<and> converged st = Some True"
    if s: "is_success solver l2" and ns: "\<not> is_failure l2" for solver l1 l2
  proof -
    from converged_three_valued [of solver "[l1, l2]"]
    obtain st where r: "read_out_file solver [l1, l2] = Inr st"
      and t: "\<forall>pre l post. [l1, l2] = pre @ l # post \<and> is_success solver l \<and> \<not> is_failure l \<and>
         (\<forall>p\<in>set post. \<not> is_failure p) \<longrightarrow> converged st = Some True"
      by (elim exE conjE) (rule that)
    from t [rule_format, of "[l1]" l2 "[]"] s ns have "converged st = Some True" by simp
    with r show ?thesis by (intro exI [of _ st] conjI)
  qed
  have b: "\<exists>st. read_out_file solver [l2, l3] = Inr st \<and> converged st = Some False"
    if fl: "is_failure l3" for solver l2 l3
  proof -
    from converged_three_valued [of solver "[l2, l3]"]
    obtain st where r: "read_out_file solver [l2, l3] = Inr st"
      and t: "\<forall>pre l post. [l2, l3] = pre @ l # post \<and> is_failure l \<and>
         (\<forall>p\<in>set post. is_success solver p \<longrightarrow> is_failure p) \<longrightarrow> converged st = Some False"
      by (elim exE conjE) (rule that)
    from t [rule_format, of "[l2]" l3 "[]"] fl have "converged st = Some False" by simp
    with r show ?thesis by (intro exI [of _ st] conjI)
  qed
  have c: "\<exists>st. read_out_file solver [l1, l4] = Inr st \<and> converged st = None"
    if q: "\<not> is_success solver l1" "\<not> is_failure l1" "\<not> is_success solver l4" "\<not> is_failure l4"
    for solver l1 l4
  proof -
    from converged_three_valued [of solver "[l1, l4]"]
    obtain st where r: "read_out_file solver [l1, l4] = Inr st"
      and t: "(converged st = None) =
          (\<forall>l\<in>set [l1, l4]. \<not> is_success solver l \<and> \<not> is_failure l)"
      by (elim exE conjE) (rule that)
    from t q have "converged st = None" by simp
    with r show ?thesis by (intro exI [of _ st] conjI)
  qed
  show ?thesis
    apply (intro conjI)
      apply (rule a [OF out_example_lines(1,2)])
     apply (rule b [OF out_example_lines(3)])
    apply (rule c [OF out_example_lines(4,5,6,7)])
    done
qed

subsection \<open>Series keys of the tab file reader\<close>

lemma bnd_Inr [simp]: "bnd (Inr x) f = f x"
  by (simp add: bnd_def)

lemma split_aux_nonempty: "split_aux sep acc k s \<noteq> []"
  by (induction sep acc k s rule: split_aux.induct) auto

lemma split_aux_two:
  "c \<in> set (drop k s) \<Longrightarrow> 2 \<le> length (split_aux [c] acc k s)"
proof (induction "[c]" acc k s rule: split_aux.induct)
  case (1 acc k)
  then show ?case by simp
next
  case (2 acc k x xs)
  then show ?case by simp
next
  case (3 acc x xs)
  show ?case
  proof (cases "c = x")
    case True
    have "1 \<le> length (split_aux [c] [] 0 xs)"
      using split_aux_nonempty [of "[c]" "[]" 0 xs] by (cases "split_aux [c] [] 0 xs") auto
    with True show ?thesis by simp
  next
    case False
    with 3 show ?thesis by simp
  qed
qed

lemma colon_field_total: "CHR '':'' \<in> set l \<Longrightarrow> \<exists>v. colon_field l = Inr v"
  using split_aux_two [of "CHR '':''" 0 l "[]"]
  by (simp add: colon_field_def split_def idx_def)

lemma prefix_colon:
  "take n l = p \<Longrightarrow> CHR '':'' \<in> set p \<Longrightarrow> \<exists>v. colon_field l = Inr v"
  using set_take_subset [of n l] by (auto intro: colon_field_total)

lemma join_Cons_nonempty: "ys \<noteq> [] \<Longrightarrow> join sep (x # ys) = x @ sep @ join sep ys"
  by (cases ys) simp_all

lemma join_split_aux_char:
  "join [] (split_aux [c] acc 0 s) = rev acc @ filter (\<lambda>x. x \<noteq> c) s"
proof (induction s arbitrary: acc)
  case Nil
  then show ?case by simp
next
  case (Cons x xs)
  show ?case
  proof (cases "c = x")
    case True
    then show ?thesis
      using Cons [of "[]"] by (simp add: join_Cons_nonempty split_aux_nonempty)
  next
    case False
    then show ?thesis using Cons [of "x # acc"] by simp
  qed
qed

lemma replace_char_empty: "replace [c] [] s = filter (\<lambda>x. x \<noteq> c) s"
  by (simp add: replace_def split_def join_split_aux_char)

lemma startswith_hd: "startswith (c # cs) s \<Longrightarrow> c \<in> set s"
  by (cases s) auto

lemma contains_hd: "contains (c # cs) s \<Longrightarrow> c \<in> set s"
  by (induction s) (auto dest: startswith_hd)

lemma table_name_nonempty:
  assumes "contains ''Table No.'' l"
  shows "replace [CHR ''\<newline>''] [] l \<noteq> []"
proof -
  from assms have "CHR ''T'' \<in> set l" by (rule contains_hd)
  then have "CHR ''T'' \<in> set (filter (\<lambda>x. x \<noteq> CHR ''\<newline>'') l)" by simp
  then have "filter (\<lambda>x. x \<noteq> CHR ''\<newline>'') l \<noteq> []" by (metis empty_iff empty_set)
  then show ?thesis by (simp only: replace_char_empty not_False_eq_True)
qed

declare str_nat.simps [simp del]

lemma str_nat_small:
  "str_nat 1 = ''1''" "str_nat 2 = ''2''" "str_nat (Suc 0) = ''1''" "str_nat (Suc (Suc 0)) = ''2''"
  by code_simp+

lemma plot_prefixes:
  assumes "take 10 p = ''Plot Data:''"
  shows "take 7 p = ''Plot Da''" "take 8 p = ''Plot Dat''"
proof -
  have "take 7 p = take 7 (take 10 p)" "take 8 p = take 8 (take 10 p)" by simp_all
  with assms show "take 7 p = ''Plot Da''" "take 8 p = ''Plot Dat''" by simp_all
qed

lemma try_append_frame:
  "table (try_append flt st l) = table st"
  "series_count (try_append flt st l) = series_count st"
  "series (try_append flt st l) = series st"
  "map_option dom (tab_file_data (try_append flt st l) t) = map_option dom (tab_file_data st t)"
  by (auto simp: try_append_def Let_def split: option.splits sum.splits)

lemma try_append_in_table: "in_table t n ks (try_append flt st l) = in_table t n ks st"
proof -
  have "(\<exists>tb. tab_file_data (try_append flt st l) t = Some tb \<and> dom tb = ks) =
        (\<exists>tb. tab_file_data st t = Some tb \<and> dom tb = ks)"
    using try_append_frame(4) [of flt st l t]
    by (cases "tab_file_data (try_append flt st l) t"; cases "tab_file_data st t") auto
  then show ?thesis by (simp add: in_table_def try_append_frame)
qed

lemma axis_lines_frame:
  "\<exists>st'. axis_lines st l = Inr st' \<and> table st' = table st \<and> series_count st' = series_count st \<and>
     series st' = series st \<and> tab_file_data st' = tab_file_data st"
proof -
  have x: "take 7 l = ''X-Axis:'' \<Longrightarrow> \<exists>v. colon_field l = Inr v"
    and y: "take 7 l = ''Y-Axis:'' \<Longrightarrow> \<exists>v. colon_field l = Inr v"
    and xu: "take 8 l = ''X-Units:'' \<Longrightarrow> \<exists>v. colon_field l = Inr v"
    and yu: "take 8 l = ''Y-Units:'' \<Longrightarrow> \<exists>v. colon_field l = Inr v"
    by (rule prefix_colon, assumption, simp)+
  show ?thesis
    unfolding axis_lines_def
    by (cases "take 7 l = ''X-Axis:''"; cases "take 7 l = ''Y-Axis:''";
        cases "take 8 l = ''X-Units:''"; cases "take 8 l = ''Y-Units:''")
       (use x y xu yu in \<open>auto\<close>)
qed

lemma axis_lines_plot:
  assumes "take 10 p = ''Plot Data:''"
  shows "axis_lines st p = Inr st"
  using plot_prefixes [OF assms] by (simp add: axis_lines_def)


lemma tab_line_table:
  assumes "contains ''Table No.'' l"
  shows "\<exists>st'. tab_line flt st l = Inr st' \<and> in_table (replace [CHR ''\<newline>''] [] l) 0 {} st'"
  using assms by (simp add: tab_line_def in_table_def Let_def)

lemma tab_line_other:
  assumes "in_table t n ks st" and "t \<noteq> []"
    and "\<not> contains ''Table No.'' l" and "take 10 l \<noteq> ''Plot Data:''"
  shows "\<exists>st'. tab_line flt st l = Inr st' \<and> in_table t n ks st'"
proof -
  from axis_lines_frame [of st l] obtain st1 where
    a: "axis_lines st l = Inr st1" and f: "table st1 = table st" "series_count st1 = series_count st"
      "tab_file_data st1 = tab_file_data st" by blast
  from assms(1) f have i: "in_table t n ks st1" by (simp add: in_table_def)
  from assms a have "tab_line flt st l = Inr (try_append flt st1 l)"
    by (simp add: tab_line_def in_table_def plot_data_line_def)
  with i show ?thesis by (simp add: try_append_in_table)
qed

lemma tab_line_plot:
  assumes "in_table t n ks st" and "t \<noteq> []"
    and "\<not> contains ''Table No.'' p" and "take 10 p = ''Plot Data:''"
    and "colon_field p = Inr title"
  shows "\<exists>st'. tab_line flt st p = Inr st' \<and>
           (if title = [] \<or> title \<in> ks
            then in_table t (n + 1) (insert (''Series '' @ str_nat (n + 1)) ks) st' \<and>
                 series st' = Some (''Series '' @ str_nat (n + 1))
            else in_table t n (insert title ks) st' \<and> series st' = Some title)"
proof -
  from assms(1) obtain tb where
    t: "table st = Some t" and c: "series_count st = n" and
    d: "tab_file_data st t = Some tb" and k: "dom tb = ks"
    by (auto simp: in_table_def)
  have k': "(tb title \<noteq> None) = (title \<in> ks)" using k by auto
  let ?dup = "title = [] \<or> title \<in> ks"
  let ?n = "if ?dup then n + 1 else n"
  let ?name = "if ?dup then ''Series '' @ str_nat ?n else title"
  let ?st2 = "st\<lparr>series_count := ?n, series := Some ?name,
      tab_file_data := (tab_file_data st)(t \<mapsto> tb(?name \<mapsto>
        \<lparr>series_X = [], series_Y = [], X_Label = x_axis_label st, Y_Label = y_axis_label st,
         X_Units = x_units st, Y_Units = y_units st\<rparr>))\<rparr>"
  have p: "plot_data_line st t p = Inr ?st2"
    using assms(4,5) d k' c by (simp add: plot_data_line_def Let_def)
  have "tab_line flt st p =
      bnd (axis_lines st p) (\<lambda>st1. bnd (plot_data_line st1 t p) (\<lambda>st2. Inr (try_append flt st2 p)))"
    using assms(2,3) t by (simp add: tab_line_def)
  also have "\<dots> = Inr (try_append flt ?st2 p)"
    by (simp only: axis_lines_plot [OF assms(4)] p bnd_Inr)
  finally have l: "tab_line flt st p = Inr (try_append flt ?st2 p)" .
  have i: "in_table t ?n (insert ?name ks) ?st2"
    using t k by (simp add: in_table_def)
  have s: "series (try_append flt ?st2 p) = Some ?name"
    by (simp add: try_append_frame)
  from l i s show ?thesis
    by (cases ?dup) (simp_all add: try_append_in_table)
qed

lemma parse_contents_append:
  "parse_contents flt st (xs @ ys) =
     bnd (parse_contents flt st xs) (\<lambda>st'. parse_contents flt st' ys)"
  by (induction xs arbitrary: st) (auto simp: bnd_def split: sum.splits)

lemma parse_contents_other:
  "in_table t n ks st \<Longrightarrow> t \<noteq> [] \<Longrightarrow>
   \<forall>l\<in>set mid. \<not> contains ''Table No.'' l \<and> take 10 l \<noteq> ''Plot Data:'' \<Longrightarrow>
     \<exists>st'. parse_contents flt st mid = Inr st' \<and> in_table t n ks st'"
proof (induction mid arbitrary: st)
  case Nil
  then show ?case by simp
next
  case (Cons l mid)
  from tab_line_other [OF Cons.prems(1,2), of l flt] Cons.prems(3) obtain st1 where
    a: "tab_line flt st l = Inr st1" and b: "in_table t n ks st1" by auto
  from Cons.IH [OF b Cons.prems(2)] Cons.prems(3) obtain st' where
    "parse_contents flt st1 mid = Inr st'" "in_table t n ks st'" by auto
  with a show ?case by simp
qed

lemma two_plot_lines:
  assumes tline: "contains ''Table No.'' tline"
    and mid: "\<forall>l\<in>set mid. \<not> contains ''Table No.'' l \<and> take 10 l \<noteq> ''Plot Data:''"
    and p1: "take 10 p1 = ''Plot Data:''" "\<not> contains ''Table No.'' p1" "colon_field p1 = Inr t1"
    and p2: "take 10 p2 = ''Plot Data:''" "\<not> contains ''Table No.'' p2" "colon_field p2 = Inr t2"
  shows "\<exists>st' tb. parse_contents flt st (tline # mid @ [p1, p2]) = Inr st' \<and>
           tab_file_data st' (replace [CHR ''\<newline>''] [] tline) = Some tb \<and>
           dom tb =
             (let k1 = (if t1 = [] then ''Series 1'' else t1);
                  c1 = (if t1 = [] then 1 else 0);
                  k2 = (if t2 = [] \<or> t2 = k1 then ''Series '' @ str_nat (c1 + 1) else t2)
              in {k1, k2})"
proof -
  let ?t = "replace [CHR ''\<newline>''] [] tline"
  have ne: "?t \<noteq> []" using tline by (rule table_name_nonempty)
  from tab_line_table [OF tline, of flt st] obtain s1 where
    a1: "tab_line flt st tline = Inr s1" and i1: "in_table ?t 0 {} s1" by blast
  from parse_contents_other [OF i1 ne mid, of flt] obtain s2 where
    a2: "parse_contents flt s1 mid = Inr s2" and i2: "in_table ?t 0 {} s2" by blast
  let ?k1 = "if t1 = [] then ''Series 1'' else t1"
  let ?c1 = "if t1 = [] then 1 else (0::nat)"
  from tab_line_plot [OF i2 ne p1(2,1,3), of flt] obtain s3 where
    a3: "tab_line flt s2 p1 = Inr s3" and i3: "in_table ?t ?c1 {?k1} s3"
    by (auto simp: str_nat_small split: if_splits)
  let ?k2 = "if t2 = [] \<or> t2 = ?k1 then ''Series '' @ str_nat (?c1 + 1) else t2"
  from tab_line_plot [OF i3 ne p2(2,1,3), of flt] obtain s4 where
    a4: "tab_line flt s3 p2 = Inr s4" and
    r4: "if t2 = [] \<or> t2 \<in> {?k1}
         then in_table ?t (?c1 + 1) (insert (''Series '' @ str_nat (?c1 + 1)) {?k1}) s4 \<and>
              series s4 = Some (''Series '' @ str_nat (?c1 + 1))
         else in_table ?t ?c1 (insert t2 {?k1}) s4 \<and> series s4 = Some t2"
    by blast
  have i4: "\<exists>n. in_table ?t n {?k1, ?k2} s4"
  proof (cases "t2 = [] \<or> t2 = ?k1")
    case True
    with r4 have "in_table ?t (?c1 + 1) (insert (''Series '' @ str_nat (?c1 + 1)) {?k1}) s4"
      by simp
    moreover from True have "{?k1, ?k2} = insert (''Series '' @ str_nat (?c1 + 1)) {?k1}"
      by (simp add: insert_commute)
    ultimately show ?thesis by (intro exI [of _ "?c1 + 1"]) (simp only:)
  next
    case False
    with r4 have "in_table ?t ?c1 (insert t2 {?k1}) s4" by simp
    moreover from False have "{?k1, ?k2} = insert t2 {?k1}"
      by (simp add: insert_commute)
    ultimately show ?thesis by (intro exI [of _ ?c1]) (simp only:)
  qed
  from i4 obtain tb where d: "tab_file_data s4 ?t = Some tb" and k: "dom tb = {?k1, ?k2}"
    by (auto simp: in_table_def)
  have "parse_contents flt st (tline # mid @ [p1, p2]) = Inr s4"
    using a1 a2 a3 a4 by (simp add: parse_contents_append)
  with d k show ?thesis by (simp add: Let_def)
qed


text \<open>
  C7. In any state of the loop of \<open>parse_contents\<close>, take a table line, then lines
  that are neither table lines nor Plot Data lines, then two consecutive Plot
  Data lines. If both titles are empty, the table ends with exactly the series
  keys Series 1 and Series 2: the counter restarts with the table. If both carry
  the same non-empty title, the second one is a duplicate and becomes Series 1.
\<close>

theorem duplicate_series_titles:
  assumes "contains ''Table No.'' tline"
    and "\<forall>l\<in>set mid. \<not> contains ''Table No.'' l \<and> take 10 l \<noteq> ''Plot Data:''"
    and "take 10 p1 = ''Plot Data:''" and "\<not> contains ''Table No.'' p1"
    and "take 10 p2 = ''Plot Data:''" and "\<not> contains ''Table No.'' p2"
  shows "(colon_field p1 = Inr [] \<and> colon_field p2 = Inr [] \<longrightarrow>
           (\<exists>st' tb. parse_contents flt st (tline # mid @ [p1, p2]) = Inr st' \<and>
              tab_file_data st' (replace [CHR ''\<newline>''] [] tline) = Some tb \<and>
              dom tb = {''Series 1'', ''Series 2''})) \<and>
         (\<forall>t. t \<noteq> [] \<and> colon_field p1 = Inr t \<and> colon_field p2 = Inr t \<longrightarrow>
           (\<exists>st' tb. parse_contents flt st (tline # mid @ [p1, p2]) = Inr st' \<and>
              tab_file_data st' (replace [CHR ''\<newline>''] [] tline) = Some tb \<and>
              dom tb = {t, ''Series 1''}))"
proof (intro conjI allI impI)
  assume e: "colon_field p1 = Inr [] \<and> colon_field p2 = Inr []"
  from two_plot_lines [OF assms(1,2,3,4) conjunct1 [OF e] assms(5,6) conjunct2 [OF e], of flt st]
  show "\<exists>st' tb. parse_contents flt st (tline # mid @ [p1, p2]) = Inr st' \<and>
      tab_file_data st' (replace [CHR ''\<newline>''] [] tline) = Some tb \<and>
      dom tb = {''Series 1'', ''Series 2''}"
    by (simp add: str_nat_small)
next
  fix t
  assume e: "t \<noteq> [] \<and> colon_field p1 = Inr t \<and> colon_field p2 = Inr t"
  then have t: "t \<noteq> []" and c1: "colon_field p1 = Inr t" and c2: "colon_field p2 = Inr t"
    by simp_all
  from two_plot_lines [OF assms(1,2,3,4) c1 assms(5,6) c2, of flt st] t
  show "\<exists>st' tb. parse_contents flt st (tline # mid @ [p1, p2]) = Inr st' \<and>
      tab_file_data st' (replace [CHR ''\<newline>''] [] tline) = Some tb \<and>
      dom tb = {t, ''Series 1''}"
    by (simp add: str_nat_small)
qed

lemma tab_example_lines:
  "contains ''Table No.'' ''Table No. 1 - A\<newline>''"
  "\<not> contains ''Table No.'' ''X-Axis: Stress\<newline>''"
  "take 10 ''X-Axis: Stress\<newline>'' \<noteq> ''Plot Data:''"
  "take 10 ''Plot Data:\<newline>'' = ''Plot Data:''"
  "\<not> contains ''Table No.'' ''Plot Data:\<newline>''"
  "colon_field ''Plot Data:\<newline>'' = Inr []"
  "replace [CHR ''\<newline>''] [] ''Table No. 1 - A\<newline>'' = ''Table No. 1 - A''"
  by code_simp+

theorem duplicate_series_titles_witness:
  "\<exists>st' tb. parse_contents float_dec (tab_start ())
       [''Table No. 1 - A\<newline>'', ''X-Axis: Stress\<newline>'', ''Plot Data:\<newline>'', ''Plot Data:\<newline>'']
         = Inr st' \<and>
     tab_file_data st' ''Table No. 1 - A'' = Some tb \<and> dom tb = {''Series 1'', ''Series 2''}"
proof -
  have g: "\<exists>st' tb. parse_contents flt st [tline, m, p, p] = Inr st' \<and>
      tab_file_data st' name = Some tb \<and> dom tb = {''Series 1'', ''Series 2''}"
    if a: "contains ''Table No.'' tline" and b: "\<not> contains ''Table No.'' m"
      and c: "take 10 m \<noteq> ''Plot Data:''" and d: "take 10 p = ''Plot Data:''"
      and e: "\<not> contains ''Table No.'' p" and f: "colon_field p = Inr []"
      and n: "replace [CHR ''\<newline>''] [] tline = name"
    for flt :: "string \<Rightarrow> real option" and st tline m p name
  proof -
    from b c have mid: "\<forall>l\<in>set [m]. \<not> contains ''Table No.'' l \<and> take 10 l \<noteq> ''Plot Data:''"
      by simp
    from duplicate_series_titles [OF a mid d e d e, of flt st] f n
    show ?thesis by simp
  qed
  show ?thesis
    by (rule g [OF tab_example_lines])
qed

subsection \<open>The current profile of the shear7 input\<close>

lemma s7_lines_append:
  "s7_lines sd (xs @ ys) = bnd (s7_lines sd xs) (\<lambda>sd'. s7_lines sd' ys)"
  by (induction xs arbitrary: sd) (auto simp: bnd_def split: sum.splits)

lemma s7_lines_plain:
  "d sec = Some xs \<Longrightarrow> \<forall>l\<in>set ls. \<not> contains ''***'' l \<Longrightarrow>
     s7_lines (sec, d) ls = Inr (sec, d(sec \<mapsto> xs @ ls))"
proof (induction ls arbitrary: d xs)
  case Nil
  then show ?case by (simp add: fun_upd_idem)
next
  case (Cons l ls)
  have step: "s7_line (sec, d) l = Inr (sec, d(sec \<mapsto> xs @ [l]))"
    using Cons.prems by (simp add: s7_line_def)
  have rest: "s7_lines (sec, d(sec \<mapsto> xs @ [l])) ls =
          Inr (sec, (d(sec \<mapsto> xs @ [l]))(sec \<mapsto> (xs @ [l]) @ ls))"
    using Cons.prems(2) by (intro Cons.IH) simp_all
  have "s7_lines (sec, d) (l # ls) = s7_lines (sec, d(sec \<mapsto> xs @ [l])) ls"
    by (simp only: s7_lines.simps step bnd_Inr)
  also have "\<dots> = Inr (sec, (d(sec \<mapsto> xs @ [l]))(sec \<mapsto> (xs @ [l]) @ ls))"
    by (rule rest)
  also have "(d(sec \<mapsto> xs @ [l]))(sec \<mapsto> (xs @ [l]) @ ls) = d(sec \<mapsto> xs @ l # ls)"
    by simp
  finally show ?case .
qed

lemma block3_rows_range:
  "i + m \<le> length b \<Longrightarrow> block3_rows flt b [i ..< i + m] = read_rows flt (take m (drop i b))"
proof (induction m arbitrary: i)
  case 0
  then show ?case by simp
next
  case (Suc m)
  have r: "[i ..< i + Suc m] = i # [Suc i ..< Suc i + m]"
    by (simp add: upt_rec)
  have t: "take (Suc m) (drop i b) = b ! i # take m (drop (Suc i) b)"
    using Suc.prems by (simp add: Cons_nth_drop_Suc [symmetric])
  have "block3_rows flt b [Suc i ..< Suc i + m] = read_rows flt (take m (drop (Suc i) b))"
    using Suc.prems by (intro Suc.IH) simp
  with Suc.prems show ?case
    by (simp only: r t block3_rows.simps read_rows.simps) (simp add: idx_def)
qed

lemma s7_lines_other_section:
  "s7_lines (sec, d) ls = Inr (sec', d') \<Longrightarrow> sec \<noteq> k \<Longrightarrow>
   \<forall>l\<in>set ls. contains ''***'' l \<longrightarrow> section_name l \<noteq> Inr k \<Longrightarrow> d' k = d k"
proof (induction ls arbitrary: sec d)
  case Nil
  then show ?case by simp
next
  case (Cons l ls)
  from Cons.prems(1) obtain s1 d1 where
    step: "s7_line (sec, d) l = Inr (s1, d1)" and rest: "s7_lines (s1, d1) ls = Inr (sec', d')"
    by (auto simp: bnd_Inr_iff)
  have "s1 \<noteq> k \<and> d1 k = d k"
  proof (cases "contains ''***'' l")
    case True
    with step Cons.prems(3) show ?thesis
      by (auto simp: s7_line_def bnd_Inr_iff)
  next
    case False
    with step Cons.prems(2) show ?thesis
      by (auto simp: s7_line_def split: option.splits)
  qed
  with Cons.IH [OF rest] Cons.prems(3) show ?case by simp
qed

lemma s7_lines_same_section:
  "s7_lines (k, d) ls = Inr (sec', d') \<Longrightarrow> d k = Some xs \<Longrightarrow>
   \<forall>l\<in>set ls. contains ''***'' l \<longrightarrow> section_name l \<noteq> Inr k \<Longrightarrow>
     d' k = Some (xs @ takeWhile (\<lambda>l. \<not> contains ''***'' l) ls)"
proof (induction ls arbitrary: d xs)
  case Nil
  then show ?case by simp
next
  case (Cons l ls)
  from Cons.prems(1) obtain s1 d1 where
    step: "s7_line (k, d) l = Inr (s1, d1)" and rest: "s7_lines (s1, d1) ls = Inr (sec', d')"
    by (auto simp: bnd_Inr_iff)
  show ?case
  proof (cases "contains ''***'' l")
    case True
    with step Cons.prems(3) have "s1 \<noteq> k" and "d1 k = d k"
      by (auto simp: s7_line_def bnd_Inr_iff)
    with s7_lines_other_section [OF rest, of k] Cons.prems(2,3) True show ?thesis by simp
  next
    case False
    with step Cons.prems(2) have s1: "s1 = k" and d1: "d1 = d(k \<mapsto> xs @ [l])"
      by (auto simp: s7_line_def)
    from rest have rest': "s7_lines (k, d(k \<mapsto> xs @ [l])) ls = Inr (sec', d')"
      by (simp only: s1 d1)
    have "d' k = Some ((xs @ [l]) @ takeWhile (\<lambda>l. \<not> contains ''***'' l) ls)"
      using Cons.prems(3) by (intro Cons.IH [OF rest', of "xs @ [l]"]) simp_all
    with False show ?thesis by simp
  qed
qed

lemma s7_lines_no_marker_stored:
  "s7_lines (sec, d) ls = Inr (sec', d') \<Longrightarrow>
   (\<And>k xs x. d k = Some xs \<Longrightarrow> x \<in> set xs \<Longrightarrow> \<not> contains ''***'' x) \<Longrightarrow>
   d' k = Some xs \<Longrightarrow> x \<in> set xs \<Longrightarrow> \<not> contains ''***'' x"
proof (induction ls arbitrary: sec d)
  case Nil
  then show ?case by auto
next
  case (Cons l ls)
  from Cons.prems(1) obtain s1 d1 where
    step: "s7_line (sec, d) l = Inr (s1, d1)" and rest: "s7_lines (s1, d1) ls = Inr (sec', d')"
    by (auto simp: bnd_Inr_iff)
  have inv: "\<not> contains ''***'' y" if "d1 j = Some ys" "y \<in> set ys" for j ys y
  proof (cases "contains ''***'' l")
    case True
    with step obtain sec1 where "d1 = d(sec1 \<mapsto> [])"
      by (auto simp: s7_line_def bnd_Inr_iff)
    with that Cons.prems(2) show ?thesis by (auto split: if_splits)
  next
    case False
    with step obtain zs where "d sec = Some zs" "d1 = d(sec \<mapsto> zs @ [l])"
      by (auto simp: s7_line_def split: option.splits)
    with that Cons.prems(2) False show ?thesis by (auto split: if_splits)
  qed
  from Cons.IH [OF rest inv Cons.prems(3,4)] show ?case by simp
qed

text \<open>A separator occurs in a string exactly when \<open>split\<close> gives more than one piece.\<close>

lemma split_aux_single:
  "\<not> contains sep (drop k s) \<Longrightarrow> length (split_aux sep acc k s) = 1"
  by (induction sep acc k s rule: split_aux.induct) auto

lemma split_aux_several:
  "sep \<noteq> [] \<Longrightarrow> contains sep (drop k s) \<Longrightarrow> 2 \<le> length (split_aux sep acc k s)"
proof (induction sep acc k s rule: split_aux.induct)
  case (1 sep acc k)
  then show ?case by simp
next
  case (2 sep acc k c cs)
  then show ?case by simp
next
  case (3 sep acc c cs)
  show ?case
  proof (cases "startswith sep (c # cs)")
    case True
    have "1 \<le> length (split_aux sep [] (length sep - 1) cs)"
      using split_aux_nonempty [of sep "[]" "length sep - 1" cs]
      by (cases "split_aux sep [] (length sep - 1) cs") auto
    with True 3(3) show ?thesis by simp
  next
    case False
    with 3 show ?thesis by simp
  qed
qed

lemma marker_line:
  assumes "contains ''***'' l"
  shows "\<exists>a. idx (split ''.'' l) 0 = Inr a \<and>
           (if contains ''***'' a
            then (\<exists>sec. s7_line sd l = Inr (sec, (snd sd)(sec \<mapsto> [])))
            else s7_line sd l = Inl IndexError)"
proof -
  have "split ''.'' l \<noteq> []" by (simp add: split_def split_aux_nonempty)
  then obtain a where a: "idx (split ''.'' l) 0 = Inr a"
    by (cases "split ''.'' l") (auto simp: idx_def)
  show ?thesis
  proof (cases "contains ''***'' a")
    case True
    from split_aux_several [of "''***''" 0 a "[]"] True
    have "2 \<le> length (split ''***'' a)" by (simp add: split_def)
    then obtain b where "idx (split ''***'' a) 1 = Inr b" by (auto simp: idx_def)
    with a assms True show ?thesis
      by (auto simp: s7_line_def section_name_def)
  next
    case False
    from split_aux_single [of "''***''" 0 a "[]"] False
    have "length (split ''***'' a) = 1" by (simp add: split_def)
    then have "idx (split ''***'' a) 1 = Inl IndexError" by (simp add: idx_def)
    with a assms False show ?thesis
      by (auto simp: s7_line_def section_name_def bnd_def)
  qed
qed

lemma parse_file_Inr:
  "parse_file st ls = Inr st1 \<Longrightarrow>
     \<exists>sec' d'. s7_lines (''headers'', s7_data st) ls = Inr (sec', d') \<and> st1 = st\<lparr>s7_data := d'\<rparr>"
  by (auto simp: parse_file_def bnd_Inr_iff)

lemma block3_table:
  assumes run: "parse_file st (pre @ hdr # cnt # rows @ rest) = Inr st1"
    and hdr: "contains ''***'' hdr" "section_name hdr = Inr ''BLOCK 3''"
    and body: "\<forall>l\<in>set (cnt # rows). \<not> contains ''***'' l"
    and later: "\<forall>l\<in>set rest. contains ''***'' l \<longrightarrow> section_name l \<noteq> Inr ''BLOCK 3''"
    and cnt: "block3_count cnt = Inr (int (length rows))"
  shows "s7_data st1 ''BLOCK 3'' =
           Some (cnt # rows @ takeWhile (\<lambda>l. \<not> contains ''***'' l) rest) \<and>
         process_block3 flt st1 =
           bnd (read_rows flt rows) (\<lambda>rs.
             Inr (st1\<lparr>number_current_points := Some (int (length rows)),
                      current_profile := current_profile st1 @ rs\<rparr>))"
proof -
  let ?tw = "takeWhile (\<lambda>l. \<not> contains ''***'' l) rest"
  let ?b = "cnt # rows @ ?tw"
  from parse_file_Inr [OF run] obtain sec' d' where
    all0: "s7_lines (''headers'', s7_data st) (pre @ hdr # cnt # rows @ rest) = Inr (sec', d')" and
    st1: "st1 = st\<lparr>s7_data := d'\<rparr>"
    by blast
  define sd where "sd = (sec', d')"
  from all0 have all1: "s7_lines (''headers'', s7_data st) (pre @ hdr # cnt # rows @ rest) = Inr sd"
    by (simp only: sd_def)
  from all1 obtain sd1 where
    tl0: "s7_lines sd1 (hdr # cnt # rows @ rest) = Inr sd"
    unfolding s7_lines_append bnd_Inr_iff by (elim exE conjE)
  obtain sec1 d1 where sd1: "sd1 = (sec1, d1)" by (cases sd1)
  have "hdr # cnt # rows @ rest = hdr # (cnt # rows) @ rest" by simp
  with tl0 have tl: "s7_lines (sec1, d1) (hdr # (cnt # rows) @ rest) = Inr (sec', d')"
    by (simp only: sd_def sd1)
  let ?e = "d1(''BLOCK 3'' \<mapsto> [])"
  have h: "s7_line (sec1, d1) hdr = Inr (''BLOCK 3'', ?e)"
    using hdr by (simp add: s7_line_def)
  have p: "s7_lines (''BLOCK 3'', ?e) (cnt # rows) =
      Inr (''BLOCK 3'', ?e(''BLOCK 3'' \<mapsto> [] @ cnt # rows))"
    using body by (intro s7_lines_plain) simp_all
  from tl have "s7_lines (''BLOCK 3'', ?e) ((cnt # rows) @ rest) = Inr (sec', d')"
    by (simp only: s7_lines.simps h bnd_Inr)
  then have r: "s7_lines (''BLOCK 3'', ?e(''BLOCK 3'' \<mapsto> [] @ cnt # rows)) rest = Inr (sec', d')"
    by (simp only: s7_lines_append p bnd_Inr)
  have look: "d' ''BLOCK 3'' = Some ((cnt # rows) @ ?tw)"
    using later by (intro s7_lines_same_section [OF r]) simp_all
  then have look': "s7_data st1 ''BLOCK 3'' = Some ?b" by (simp add: st1)
  have rng: "block3_rows flt ?b [1 ..< 1 + length rows] = read_rows flt (take (length rows) (drop 1 ?b))"
    by (rule block3_rows_range) simp
  have n: "nat (int (length rows) + 1) = 1 + length rows" by simp
  have pb: "process_block3 flt st1 =
           bnd (read_rows flt rows) (\<lambda>rs.
             Inr (st1\<lparr>number_current_points := Some (int (length rows)),
                      current_profile := current_profile st1 @ rs\<rparr>))"
    using cnt rng look'
    by (simp add: process_block3_def idx_def n del: upt_Suc)
  from look' pb show ?thesis by (intro conjI)
qed

lemma s7_start_no_marker:
  "s7_data (s7_start ()) k = Some xs \<Longrightarrow> x \<in> set xs \<Longrightarrow> \<not> contains ''***'' x"
  by (auto simp: s7_start_def split: if_splits)

lemma parse_file_no_marker_stored:
  assumes "parse_file (s7_start ()) ls = Inr (st1 :: 'f shear7_file)"
    and "s7_data st1 k = Some xs" and "x \<in> set xs"
  shows "\<not> contains ''***'' x"
proof -
  from parse_file_Inr [OF assms(1)] obtain sec' d' where
    all: "s7_lines (''headers'', s7_data (s7_start () :: 'f shear7_file)) ls = Inr (sec', d')" and
    st1: "st1 = (s7_start ())\<lparr>s7_data := d'\<rparr>"
    by blast
  from assms(2) st1 have "d' k = Some xs" by simp
  from s7_lines_no_marker_stored [OF all s7_start_no_marker this assms(3)]
  show ?thesis .
qed


text \<open>
  C4, amended. \<open>parse_file\<close> splits the file by content before any count is
  read. When it completes on a file in which the header of BLOCK 3 is followed
  by a count line declaring \<open>N\<close> and by \<open>N\<close> lines, none of the count line and
  these \<open>N\<close> lines containing \<open>***\<close>, and no later header names BLOCK 3 again,
  then BLOCK 3 holds the count line, the \<open>N\<close> lines and the lines up to the next
  line with \<open>***\<close>, and \<open>process_block3\<close> reads exactly the \<open>N\<close> lines after
  the count line as rows of the one table, whatever else they contain and
  whatever follows them. A line that contains \<open>***\<close> is never kept as data:
  \<open>parse_file\<close> opens a new, empty section for it when \<open>***\<close> stands before
  the first point of the line, and raises IndexError otherwise; no section of a
  parsed file holds a line with \<open>***\<close>.
\<close>

theorem block3_rows_by_count:
  "(parse_file st (pre @ hdr # cnt # rows @ rest) = Inr st1 \<and>
    contains ''***'' hdr \<and> section_name hdr = Inr ''BLOCK 3'' \<and>
    (\<forall>l\<in>set (cnt # rows). \<not> contains ''***'' l) \<and>
    (\<forall>l\<in>set rest. contains ''***'' l \<longrightarrow> section_name l \<noteq> Inr ''BLOCK 3'') \<and>
    block3_count cnt = Inr (int (length rows)) \<longrightarrow>
      s7_data st1 ''BLOCK 3'' =
        Some (cnt # rows @ takeWhile (\<lambda>l. \<not> contains ''***'' l) rest) \<and>
      process_block3 flt st1 =
        bnd (read_rows flt rows) (\<lambda>rs.
          Inr (st1\<lparr>number_current_points := Some (int (length rows)),
                   current_profile := current_profile st1 @ rs\<rparr>))) \<and>
   (contains ''***'' l \<longrightarrow>
      (\<exists>a. idx (split ''.'' l) 0 = Inr a \<and>
         (if contains ''***'' a
          then (\<exists>sec. s7_line sd l = Inr (sec, (snd sd)(sec \<mapsto> [])))
          else s7_line sd l = Inl IndexError))) \<and>
   (parse_file (s7_start ()) ls = Inr (st2 :: 'f shear7_file) \<and>
    s7_data st2 k = Some xs \<and> x \<in> set xs \<longrightarrow> \<not> contains ''***'' x)"
proof (intro conjI impI)
  assume a: "parse_file st (pre @ hdr # cnt # rows @ rest) = Inr st1 \<and>
    contains ''***'' hdr \<and> section_name hdr = Inr ''BLOCK 3'' \<and>
    (\<forall>l\<in>set (cnt # rows). \<not> contains ''***'' l) \<and>
    (\<forall>l\<in>set rest. contains ''***'' l \<longrightarrow> section_name l \<noteq> Inr ''BLOCK 3'') \<and>
    block3_count cnt = Inr (int (length rows))"
  have r: "s7_data st1 ''BLOCK 3'' =
        Some (cnt # rows @ takeWhile (\<lambda>l. \<not> contains ''***'' l) rest) \<and>
      process_block3 flt st1 =
        bnd (read_rows flt rows) (\<lambda>rs.
          Inr (st1\<lparr>number_current_points := Some (int (length rows)),
                   current_profile := current_profile st1 @ rs\<rparr>))"
    using a by (intro block3_table [of st pre hdr cnt rows rest st1 flt]) simp_all
  from r show "s7_data st1 ''BLOCK 3'' =
        Some (cnt # rows @ takeWhile (\<lambda>l. \<not> contains ''***'' l) rest)" by simp
  from r show "process_block3 flt st1 =
        bnd (read_rows flt rows) (\<lambda>rs.
          Inr (st1\<lparr>number_current_points := Some (int (length rows)),
                   current_profile := current_profile st1 @ rs\<rparr>))" by simp
next
  assume "contains ''***'' l"
  then show "\<exists>a. idx (split ''.'' l) 0 = Inr a \<and>
         (if contains ''***'' a
          then (\<exists>sec. s7_line sd l = Inr (sec, (snd sd)(sec \<mapsto> [])))
          else s7_line sd l = Inl IndexError)"
    by (rule marker_line)
next
  assume "parse_file (s7_start ()) ls = Inr st2 \<and> s7_data st2 k = Some xs \<and> x \<in> set xs"
  then show "\<not> contains ''***'' x"
    by (intro parse_file_no_marker_stored [of ls st2 k xs x]) simp_all
qed

text \<open>
  C4, as stated, fails. The count line declares two rows and the first row
  contains \<open>***\<close>. For the row \<open>0, 2 *** top\<close>, \<open>parse_file\<close> opens the section
  top, the second row is stored under top, BLOCK 3 keeps the count line alone,
  and \<open>process_block3\<close> raises IndexError. For the row \<open>0.0, 2.5 *** top\<close>,
  whose first point comes before the stars, \<open>parse_file\<close> itself raises
  IndexError.
\<close>

theorem block3_marker_row_counterexample:
  "(case parse_file (s7_start () :: real shear7_file)
      [''*** BLOCK 3. current data ***\<newline>'', ''2  number of points\<newline>'',
       ''0, 2 *** top\<newline>'', ''10, 1\<newline>''] of
     Inl e \<Rightarrow> False
   | Inr st \<Rightarrow>
       s7_data st ''BLOCK 3'' = Some [''2  number of points\<newline>''] \<and>
       s7_data st ''top'' = Some [''10, 1\<newline>''] \<and>
       (case process_block3 float_dec st of Inl e \<Rightarrow> e = IndexError | Inr st' \<Rightarrow> False)) \<and>
   (case parse_file (s7_start () :: real shear7_file)
      [''*** BLOCK 3. current data ***\<newline>'', ''2  number of points\<newline>'',
       ''0.0, 2.5 *** top\<newline>'', ''10, 1\<newline>''] of
     Inl e \<Rightarrow> e = IndexError
   | Inr st \<Rightarrow> False)"
  by code_simp

lemma block3_example_lines:
  "contains ''***'' ''*** BLOCK 3. current data ***\<newline>''"
  "section_name ''*** BLOCK 3. current data ***\<newline>'' = Inr ''BLOCK 3''"
  "\<not> contains ''***'' ''2  number of points\<newline>''"
  "\<not> contains ''***'' ''0.0, 2.5 BLOCK 4 top\<newline>''"
  "\<not> contains ''***'' ''10, 1\<newline>''"
  "contains ''***'' ''*** BLOCK 4. sn curves ***\<newline>''"
  "section_name ''*** BLOCK 4. sn curves ***\<newline>'' = Inr ''BLOCK 4''"
  "\<not> contains ''***'' ''1  number of curves\<newline>''"
  "block3_count ''2  number of points\<newline>'' = Inr 2"
  "read_rows float_dec [''0.0, 2.5 BLOCK 4 top\<newline>'', ''10, 1\<newline>''] = Inr [(0, 5 / 2), (10, 1)]"
  "(case parse_file (s7_start () :: real shear7_file)
      [''*** BLOCK 3. current data ***\<newline>'', ''2  number of points\<newline>'',
       ''0.0, 2.5 BLOCK 4 top\<newline>'', ''10, 1\<newline>'',
       ''*** BLOCK 4. sn curves ***\<newline>'', ''1  number of curves\<newline>''] of
     Inl e \<Rightarrow> False | Inr st1 \<Rightarrow> True)"
  by code_simp+

lemma marker_example_lines:
  "contains ''***'' ''0.0, 2.5 *** top\<newline>''"
  "idx (split ''.'' ''0.0, 2.5 *** top\<newline>'') 0 = Inr ''0''"
  "\<not> contains ''***'' ''0''"
  by code_simp+

theorem block3_rows_by_count_witness:
  "(\<exists>st1 st2. parse_file (s7_start ())
       [''*** BLOCK 3. current data ***\<newline>'', ''2  number of points\<newline>'',
        ''0.0, 2.5 BLOCK 4 top\<newline>'', ''10, 1\<newline>'',
        ''*** BLOCK 4. sn curves ***\<newline>'', ''1  number of curves\<newline>''] = Inr st1 \<and>
     s7_data st1 ''BLOCK 3'' =
       Some [''2  number of points\<newline>'', ''0.0, 2.5 BLOCK 4 top\<newline>'', ''10, 1\<newline>''] \<and>
     process_block3 float_dec st1 = Inr st2 \<and>
     number_current_points st2 = Some 2 \<and> current_profile st2 = [(0, 5 / 2), (10, 1)]) \<and>
   \<not> contains ''***'' ''0.0, 2.5 BLOCK 4 top\<newline>'' \<and>
   s7_line (''BLOCK 3'', [''BLOCK 3'' \<mapsto> []]) ''0.0, 2.5 *** top\<newline>'' = Inl IndexError"
proof -
  have g1: "(\<exists>st1 st2. parse_file (s7_start ()) [hdr, cnt, r1, r2, h4, y] = Inr st1 \<and>
        s7_data st1 ''BLOCK 3'' = Some [cnt, r1, r2] \<and>
        process_block3 flt st1 = Inr st2 \<and>
        number_current_points st2 = Some 2 \<and> current_profile st2 = rs) \<and>
      \<not> contains ''***'' r1"
    if a: "contains ''***'' hdr" and b: "section_name hdr = Inr ''BLOCK 3''"
      and c: "\<not> contains ''***'' cnt" "\<not> contains ''***'' r1" "\<not> contains ''***'' r2"
      and h: "contains ''***'' h4" "section_name h4 = Inr ''BLOCK 4''" "\<not> contains ''***'' y"
      and n: "block3_count cnt = Inr 2" and r: "read_rows flt [r1, r2] = Inr rs"
      and run: "(case parse_file (s7_start () :: real shear7_file) [hdr, cnt, r1, r2, h4, y] of
                   Inl e \<Rightarrow> False | Inr st1 \<Rightarrow> True)"
    for flt :: "string \<Rightarrow> real option" and hdr cnt r1 r2 h4 y rs
  proof -
    let ?st = "s7_start () :: real shear7_file"
    from run obtain st1 where p: "parse_file ?st [hdr, cnt, r1, r2, h4, y] = Inr st1"
      by (cases "parse_file ?st [hdr, cnt, r1, r2, h4, y]") simp_all
    have hyp: "parse_file ?st ([] @ hdr # cnt # [r1, r2] @ [h4, y]) = Inr st1 \<and>
        contains ''***'' hdr \<and> section_name hdr = Inr ''BLOCK 3'' \<and>
        (\<forall>l\<in>set (cnt # [r1, r2]). \<not> contains ''***'' l) \<and>
        (\<forall>l\<in>set [h4, y]. contains ''***'' l \<longrightarrow> section_name l \<noteq> Inr ''BLOCK 3'') \<and>
        block3_count cnt = Inr (int (length [r1, r2]))"
      using p a b c h n by simp
    from block3_rows_by_count [THEN conjunct1, rule_format, OF hyp, of flt] h(1) r
    have look: "s7_data st1 ''BLOCK 3'' = Some [cnt, r1, r2]"
      and pb: "process_block3 flt st1 =
          Inr (st1\<lparr>number_current_points := Some 2, current_profile := current_profile st1 @ rs\<rparr>)"
      by simp_all
    from parse_file_Inr [OF p] have cp: "current_profile st1 = []"
      by (auto simp: s7_start_def)
    have hyp3: "parse_file ?st [hdr, cnt, r1, r2, h4, y] = Inr st1 \<and>
        s7_data st1 ''BLOCK 3'' = Some [cnt, r1, r2] \<and> r1 \<in> set [cnt, r1, r2]"
      using p look by simp
    from block3_rows_by_count [THEN conjunct2, THEN conjunct2, rule_format, OF hyp3]
    have nm: "\<not> contains ''***'' r1" .
    from p look pb cp nm show ?thesis by simp
  qed
  have g2: "s7_line sd l = Inl IndexError"
    if a: "contains ''***'' l" and b: "idx (split ''.'' l) 0 = Inr a" and c: "\<not> contains ''***'' a"
    for sd :: "string \<times> (string \<rightharpoonup> string list)" and l a
    using block3_rows_by_count [THEN conjunct2, THEN conjunct1, rule_format, OF a, of sd] b c
    by auto
  from g1 [OF block3_example_lines] g2 [OF marker_example_lines]
  show ?thesis by (intro conjI) simp_all
qed

subsection \<open>Carried values in element sets and hydrodynamic sets\<close>


















end
